theory Spec2Isabelle
  imports Complex_Main "HOL-Library.Word"
begin

section \<open>Python exceptions and numpy arrays\<close>

text \<open>
  The layer of \<^verbatim>\<open>thinc/neural/_classes/embed.py\<close> works on numpy arrays. An exception
  is a value of \<open>error\<close>; a call that can raise returns \<open>error + 'a\<close>, and a call that
  also mutates the layer returns the outcome together with the layer as the call left it,
  so that what an exception leaves behind is part of the result.

  \<open>Unallocated\<close> is not a Python exception: it marks the read of a tensor that the
  parameter store does not hold yet. The attribute descriptors that would allocate and
  randomly initialise it are not among the sources, so the model stops there.
\<close>

datatype error = ValueError | TypeError | IndexError | Unallocated

text \<open>
  A two-dimensional array is its rows together with the number of columns (which the
  rows alone do not give when there are none). A one-dimensional array is a list.
\<close>

record 'a ndarray =
  ncols :: nat
  rws :: "'a list list"

definition nrows :: "'a ndarray \<Rightarrow> nat" where
  "nrows A = length (rws A)"

definition is_array :: "'a ndarray \<Rightarrow> bool" where
  "is_array A = list_all (\<lambda>r. length r = ncols A) (rws A)"

definition has_shape :: "nat \<Rightarrow> nat \<Rightarrow> 'a ndarray \<Rightarrow> bool" where
  "has_shape r c A = (nrows A = r \<and> ncols A = c \<and> is_array A)"

definition same_shape :: "'a ndarray \<Rightarrow> 'a ndarray \<Rightarrow> bool" where
  "same_shape A B = (ncols A = ncols B \<and> map length (rws A) = map length (rws B))"

definition flatten :: "'a ndarray \<Rightarrow> 'a list" where
  "flatten A = concat (rws A)"

text \<open>\<^verbatim>\<open>A.T\<close>\<close>

definition arr_T :: "'a ndarray \<Rightarrow> 'a ndarray" where
  "arr_T A = \<lparr>ncols = nrows A, rws = map (\<lambda>j. map (\<lambda>r. r ! j) (rws A)) [0..<ncols A]\<rparr>"

definition arr_add :: "'a::plus ndarray \<Rightarrow> 'a ndarray \<Rightarrow> 'a ndarray" where
  "arr_add A B = \<lparr>ncols = ncols A, rws = map2 (map2 (+)) (rws A) (rws B)\<rparr>"

definition arr_sub :: "'a::minus ndarray \<Rightarrow> 'a ndarray \<Rightarrow> 'a ndarray" where
  "arr_sub A B = \<lparr>ncols = ncols A, rws = map2 (map2 (-)) (rws A) (rws B)\<rparr>"

text \<open>
  A batch of ids is a one-dimensional numpy array, and numpy arrays have a dtype. The
  integer dtype is \<^verbatim>\<open>int64\<close>, numpy's default: its cells are 64-bit words read as signed
  (\<open>sint\<close>), so an id is between \<open>-2^63\<close> and \<open>2^63 - 1\<close>. Nothing in the layer checks
  the dtype of a batch, so a batch can as well be an array of booleans or of floats.
\<close>

datatype batch = IntArray "64 word list" | BoolArray "bool list" | FloatArray "real list"

text \<open>
  The result of \<^verbatim>\<open>ids % n\<close>: an array of integers, or an array of some other dtype, of
  which only the length is kept (no operation of the layer reads its cells).
\<close>

datatype indices = IntIndices "int list" | OtherIndices nat

definition in_int64 :: "int \<Rightarrow> bool" where
  "in_int64 n = (- (2 ^ 63) \<le> n \<and> n < 2 ^ 63)"

text \<open>
  \<^verbatim>\<open>ids % n\<close> with a Python integer \<open>n\<close>. On integers the remainder takes the sign of
  the divisor, as \<open>mod\<close> on \<open>int\<close> does, and a zero divisor gives 0 (numpy warns, it does
  not raise). A boolean cell counts as 1 or 0 and the result is an integer array. On a
  float array the result is a float array. With a divisor that \<^verbatim>\<open>int64\<close> cannot hold the
  result is no integer array either. With \<^verbatim>\<open>n = None\<close> the operator raises
  \<^verbatim>\<open>TypeError\<close>.
\<close>

definition np_mod :: "int \<Rightarrow> int \<Rightarrow> int" where
  "np_mod i n = (if n = 0 then 0 else i mod n)"

definition batch_len :: "batch \<Rightarrow> nat" where
  "batch_len ids =
     (case ids of IntArray ws \<Rightarrow> length ws | BoolArray bs \<Rightarrow> length bs
      | FloatArray xs \<Rightarrow> length xs)"

definition mod_ids :: "batch \<Rightarrow> int option \<Rightarrow> error + indices" where
  "mod_ids ids n =
     (case n of
        None \<Rightarrow> Inl TypeError
      | Some k \<Rightarrow>
          if \<not> in_int64 k then Inr (OtherIndices (batch_len ids))
          else
            (case ids of
               IntArray ws \<Rightarrow> Inr (IntIndices (map (\<lambda>w. np_mod (sint w) k) ws))
             | BoolArray bs \<Rightarrow> Inr (IntIndices (map (\<lambda>b. np_mod (if b then 1 else 0) k) bs))
             | FloatArray xs \<Rightarrow> Inr (OtherIndices (length xs))))"

text \<open>
  An index into an axis of length \<open>R\<close>: negative indices count from the end, anything
  outside \<open>-R \<le> k < R\<close> raises \<^verbatim>\<open>IndexError\<close>.
\<close>

definition norm_index :: "nat \<Rightarrow> int \<Rightarrow> nat option" where
  "norm_index R k =
     (if 0 \<le> k \<and> k < int R then Some (nat k)
      else if - int R \<le> k \<and> k < 0 then Some (nat (k + int R))
      else None)"

text \<open>\<^verbatim>\<open>A[ks]\<close> with an integer array \<open>ks\<close>: a new array holding the selected rows.\<close>

definition take_rows :: "'a ndarray \<Rightarrow> int list \<Rightarrow> error + 'a ndarray" where
  "take_rows A ks =
     (case those (map (norm_index (nrows A)) ks) of
        None \<Rightarrow> Inl IndexError
      | Some js \<Rightarrow> Inr \<lparr>ncols = ncols A, rws = map (\<lambda>j. rws A ! j) js\<rparr>)"

text \<open>
  Broadcasting an operand to the shape \<open>(R, C)\<close> of the array that is written: an axis
  of the operand has the target's length or length 1. A list of rows of different
  lengths is no array and is refused.
\<close>

definition broadcast_to :: "nat \<Rightarrow> nat \<Rightarrow> 'a ndarray \<Rightarrow> error + 'a ndarray" where
  "broadcast_to R C B =
     (if is_array B \<and> (nrows B = R \<or> nrows B = 1) \<and> (ncols B = C \<or> ncols B = 1)
      then Inr \<lparr>ncols = C,
                rws = (let rs = map (\<lambda>r. if ncols B = C then r else replicate C (hd r)) (rws B)
                       in if nrows B = R then rs else replicate R (hd rs))\<rparr>
      else Inl ValueError)"

text \<open>\<^verbatim>\<open>A += B\<close> on arrays: \<open>B\<close> is broadcast to the shape of \<open>A\<close> and added cell by cell.\<close>

definition iadd :: "'a::plus ndarray \<Rightarrow> 'a ndarray \<Rightarrow> error + 'a ndarray" where
  "iadd A B =
     (case broadcast_to (nrows A) (ncols A) B of
        Inl e \<Rightarrow> Inl e
      | Inr B' \<Rightarrow> Inr (arr_add A B'))"

text \<open>
  \<^verbatim>\<open>A[ks] = T\<close>: row \<open>i\<close> of \<open>T\<close> is written to row \<open>ks[i]\<close> of \<open>A\<close>, in the order of
  \<open>ks\<close>, so that of several writes to one row the last one stays.
\<close>

definition scatter :: "nat list \<Rightarrow> 'a list list \<Rightarrow> 'a list list \<Rightarrow> 'a list list" where
  "scatter js rows base = fold (\<lambda>(j, r) rs. rs[j := r]) (zip js rows) base"

definition put_rows :: "'a ndarray \<Rightarrow> int list \<Rightarrow> 'a ndarray \<Rightarrow> error + 'a ndarray" where
  "put_rows A ks T =
     (case those (map (norm_index (nrows A)) ks) of
        None \<Rightarrow> Inl IndexError
      | Some js \<Rightarrow>
          (case broadcast_to (length ks) (ncols A) T of
             Inl e \<Rightarrow> Inl e
           | Inr T' \<Rightarrow> Inr (A\<lparr>rws := scatter js (rws T') (rws A)\<rparr>)))"

text \<open>
  \<^verbatim>\<open>A[ks] += G\<close> is Python's \<^verbatim>\<open>tmp = A[ks]; tmp += G; A[ks] = tmp\<close>: the rows are
  read once, before any of them is written.
\<close>

definition iadd_rows :: "'a::plus ndarray \<Rightarrow> int list \<Rightarrow> 'a ndarray \<Rightarrow> error + 'a ndarray" where
  "iadd_rows A ks G =
     (case take_rows A ks of
        Inl e \<Rightarrow> Inl e
      | Inr tmp \<Rightarrow>
          (case iadd tmp G of
             Inl e \<Rightarrow> Inl e
           | Inr tmp' \<Rightarrow> put_rows A ks tmp'))"

text \<open>
  \<^verbatim>\<open>A[idx]\<close> and \<^verbatim>\<open>A[idx] += G\<close> where \<open>idx\<close> is the result of \<^verbatim>\<open>ids % n\<close>: numpy
  refuses an index array that is not of an integer dtype with \<^verbatim>\<open>IndexError\<close>, before it
  reads or writes a row.
\<close>

definition index_rows :: "'a ndarray \<Rightarrow> indices \<Rightarrow> error + 'a ndarray" where
  "index_rows A idx =
     (case idx of IntIndices ks \<Rightarrow> take_rows A ks | OtherIndices k \<Rightarrow> Inl IndexError)"

definition index_iadd_rows :: "'a::plus ndarray \<Rightarrow> indices \<Rightarrow> 'a ndarray \<Rightarrow> error + 'a ndarray" where
  "index_iadd_rows A idx G =
     (case idx of IntIndices ks \<Rightarrow> iadd_rows A ks G | OtherIndices k \<Rightarrow> Inl IndexError)"

text \<open>
  \<^verbatim>\<open>w[:] = p\<close> on a one-dimensional array: every cell of \<open>w\<close> is overwritten; \<open>p\<close> has
  the length of \<open>w\<close> or length 1.
\<close>

definition assign_all :: "'a list \<Rightarrow> 'a list \<Rightarrow> error + 'a list" where
  "assign_all w p =
     (if length p = length w then Inr p
      else if length p = 1 then Inr (replicate (length w) (hd p))
      else Inl ValueError)"

text \<open>\<^verbatim>\<open>X.max()\<close>: raises \<^verbatim>\<open>ValueError\<close> on an empty array.\<close>

definition array_max :: "int list \<Rightarrow> error + int" where
  "array_max X = (case X of [] \<Rightarrow> Inl ValueError | x # xs \<Rightarrow> Inr (fold max xs x))"


section \<open>The parameter store\<close>

text \<open>
  Modelled from the spec: the class \<^verbatim>\<open>Model\<close> and the attribute descriptors of
  \<^verbatim>\<open>describe\<close> are not among the sources. The spec gives the store one flat parameter
  buffer and one flat gradient buffer (\<^verbatim>\<open>_mem.weights\<close>, \<^verbatim>\<open>_mem.gradient\<close>), and four
  tensors: \<^verbatim>\<open>W\<close> and \<^verbatim>\<open>vectors\<close>, and the gradients \<^verbatim>\<open>d_W\<close>, \<^verbatim>\<open>d_vectors\<close> of the
  same shapes. A tensor is a window of its flat buffer (offset, rows, columns), so that
  a write to the tensor is a write to the buffer and the other way round; a gradient has
  the window of its parameter, in the gradient buffer. A tensor that is not allocated
  yet has no window.
\<close>

datatype view = View (v_off: nat) (v_rows: nat) (v_cols: nat)

definition v_size :: "view \<Rightarrow> nat" where
  "v_size v = v_rows v * v_cols v"

fun chop :: "nat \<Rightarrow> nat \<Rightarrow> 'a list \<Rightarrow> 'a list list" where
  "chop c 0 xs = []"
| "chop c (Suc r) xs = take c xs # chop c r (drop c xs)"

definition read_view :: "view \<Rightarrow> 'a list \<Rightarrow> 'a ndarray" where
  "read_view v buf = \<lparr>ncols = v_cols v, rws = chop (v_cols v) (v_rows v) (drop (v_off v) buf)\<rparr>"

definition write_view :: "view \<Rightarrow> 'a list \<Rightarrow> 'a ndarray \<Rightarrow> 'a list" where
  "write_view v buf A = take (v_off v) buf @ flatten A @ drop (v_off v + v_size v) buf"

definition in_bounds :: "view \<Rightarrow> 'a list \<Rightarrow> bool" where
  "in_bounds v buf = (v_off v + v_size v \<le> length buf)"

definition disjoint_views :: "view \<Rightarrow> view \<Rightarrow> bool" where
  "disjoint_views v w = (v_off v + v_size v \<le> v_off w \<or> v_off w + v_size w \<le> v_off v)"


section \<open>The layer\<close>

text \<open>
  The attributes of an \<^verbatim>\<open>Embed\<close> instance. \<open>mem_id\<close> is \<^verbatim>\<open>id(self._mem)\<close>.
  \<open>scratch\<close> holds the arrays that the layer allocates only to hand them to the
  optimizer callback: they are no part of the parameter store.
\<close>

record 'a layer =
  nO :: int
  nM :: "int option"
  nV :: "int option"
  is_static :: bool
  mem_id :: nat
  mem_weights :: "'a list"
  mem_gradient :: "'a list"
  view_W :: "view option"
  view_vectors :: "view option"
  scratch :: "'a list list"

text \<open>\<^verbatim>\<open>Embed.__init__\<close>: nothing is allocated at construction.\<close>

definition init :: "int \<Rightarrow> int option \<Rightarrow> int option \<Rightarrow> bool \<Rightarrow> nat \<Rightarrow> 'a layer" where
  "init n_O n_M n_V static ident =
     \<lparr>nO = n_O, nM = n_M, nV = n_V, is_static = static, mem_id = ident,
      mem_weights = [], mem_gradient = [], view_W = None, view_vectors = None,
      scratch = []\<rparr>"

definition W :: "'a layer \<Rightarrow> 'a ndarray option" where
  "W L = map_option (\<lambda>v. read_view v (mem_weights L)) (view_W L)"

definition vectors :: "'a layer \<Rightarrow> 'a ndarray option" where
  "vectors L = map_option (\<lambda>v. read_view v (mem_weights L)) (view_vectors L)"

definition d_W :: "'a layer \<Rightarrow> 'a ndarray option" where
  "d_W L = map_option (\<lambda>v. read_view v (mem_gradient L)) (view_W L)"

definition d_vectors :: "'a layer \<Rightarrow> 'a ndarray option" where
  "d_vectors L = map_option (\<lambda>v. read_view v (mem_gradient L)) (view_vectors L)"

definition set_d_W :: "'a ndarray \<Rightarrow> 'a layer \<Rightarrow> 'a layer" where
  "set_d_W A L =
     (case view_W L of
        None \<Rightarrow> L
      | Some v \<Rightarrow> L\<lparr>mem_gradient := write_view v (mem_gradient L) A\<rparr>)"

definition set_d_vectors :: "'a ndarray \<Rightarrow> 'a layer \<Rightarrow> 'a layer" where
  "set_d_vectors A L =
     (case view_vectors L of
        None \<Rightarrow> L
      | Some v \<Rightarrow> L\<lparr>mem_gradient := write_view v (mem_gradient L) A\<rparr>)"

text \<open>
  The layout a store keeps: both flat buffers have one length, the windows lie inside
  them and do not overlap.
\<close>

definition wf_layer :: "'a layer \<Rightarrow> bool" where
  "wf_layer L =
     (length (mem_gradient L) = length (mem_weights L) \<and>
      (case view_W L of None \<Rightarrow> True | Some v \<Rightarrow> in_bounds v (mem_gradient L)) \<and>
      (case view_vectors L of None \<Rightarrow> True | Some w \<Rightarrow> in_bounds w (mem_gradient L)) \<and>
      (case (view_W L, view_vectors L) of (Some v, Some w) \<Rightarrow> disjoint_views v w | _ \<Rightarrow> True))"


section \<open>Dimension inference\<close>

definition set_dimensions_if_needed :: "'a layer \<Rightarrow> int list \<Rightarrow> (error + unit) \<times> 'a layer" where
  "set_dimensions_if_needed model X =
     (if nV model = None then
        (case array_max X of
           Inl e \<Rightarrow> (Inl e, model)
         | Inr m \<Rightarrow>
             (let max_id = m + 1 in
              if max_id \<ge> 10000000 then (Inl ValueError, model)
              else (Inr (), model\<lparr>nV := Some max_id\<rparr>)))
      else (Inr (), model))"


section \<open>Forward pass\<close>

text \<open>
  The array backend \<^verbatim>\<open>self.ops\<close> is not among the sources: its two operations are
  parameters of the model.
\<close>

record 'a ops =
  batch_dot :: "'a ndarray \<Rightarrow> 'a ndarray \<Rightarrow> error + 'a ndarray"
  batch_outer :: "'a ndarray \<Rightarrow> 'a ndarray \<Rightarrow> error + 'a ndarray"

text \<open>\<^verbatim>\<open>Embed._embed\<close>\<close>

definition embed :: "'a layer \<Rightarrow> batch \<Rightarrow> error + 'a ndarray" where
  "embed L ids =
     (case vectors L of
        None \<Rightarrow> Inl Unallocated
      | Some vs \<Rightarrow>
          (case mod_ids ids (nV L) of
             Inl e \<Rightarrow> Inl e
           | Inr idx \<Rightarrow> index_rows vs idx))"

definition predict :: "'a ops \<Rightarrow> 'a layer \<Rightarrow> batch \<Rightarrow> error + 'a ndarray" where
  "predict ops L ids =
     (case embed L ids of
        Inl e \<Rightarrow> Inl e
      | Inr vs \<Rightarrow>
          (case W L of
             None \<Rightarrow> Inl Unallocated
           | Some w \<Rightarrow> batch_dot ops vs w))"

text \<open>What the closure \<^verbatim>\<open>finish_update\<close> keeps of the call of \<^verbatim>\<open>begin_update\<close>.\<close>

record 'a closure =
  c_ids :: batch
  c_vectors :: "'a ndarray"

definition begin_update :: "'a ops \<Rightarrow> 'a layer \<Rightarrow> batch \<Rightarrow> 'd \<Rightarrow> error + ('a ndarray \<times> 'a closure)" where
  "begin_update ops L ids drop' =
     (case embed L ids of
        Inl e \<Rightarrow> Inl e
      | Inr vs \<Rightarrow>
          (case W L of
             None \<Rightarrow> Inl Unallocated
           | Some w \<Rightarrow>
               (case batch_dot ops vs w of
                  Inl e \<Rightarrow> Inl e
                | Inr dotted \<Rightarrow> Inr (dotted, \<lparr>c_ids = ids, c_vectors = vs\<rparr>))))"


section \<open>Backward pass\<close>

text \<open>
  The optimizer callback mutates, in place, the two one-dimensional arrays it is given:
  it is a function from their contents (and the key) to their contents afterwards. The
  arrays it is given are named by reference, so that the model says which arrays of the
  layer the mutation reaches. A callback that raises is not modelled.
\<close>

type_synonym 'a sgd = "'a list \<Rightarrow> 'a list \<Rightarrow> nat \<Rightarrow> 'a list \<times> 'a list"

datatype ref = MemWeights | MemGradient | Scratch nat

definition deref :: "'a layer \<Rightarrow> ref \<Rightarrow> 'a list" where
  "deref L r =
     (case r of MemWeights \<Rightarrow> mem_weights L | MemGradient \<Rightarrow> mem_gradient L
      | Scratch k \<Rightarrow> scratch L ! k)"

definition assign :: "ref \<Rightarrow> 'a list \<Rightarrow> 'a layer \<Rightarrow> 'a layer" where
  "assign r xs L =
     (case r of MemWeights \<Rightarrow> L\<lparr>mem_weights := xs\<rparr> | MemGradient \<Rightarrow> L\<lparr>mem_gradient := xs\<rparr>
      | Scratch k \<Rightarrow> L\<lparr>scratch := (scratch L)[k := xs]\<rparr>)"

text \<open>A new array with the given contents, as \<^verbatim>\<open>flatten()\<close> and \<^verbatim>\<open>copy()\<close> return.\<close>

definition alloc :: "'a list \<Rightarrow> 'a layer \<Rightarrow> ref \<times> 'a layer" where
  "alloc xs L = (Scratch (length (scratch L)), L\<lparr>scratch := scratch L @ [xs]\<rparr>)"

definition call_sgd :: "'a sgd \<Rightarrow> ref \<Rightarrow> ref \<Rightarrow> nat \<Rightarrow> 'a layer \<Rightarrow> 'a layer" where
  "call_sgd f rw rg key L =
     (case f (deref L rw) (deref L rg) key of
        (w', g') \<Rightarrow> assign rg g' (assign rw w' L))"

text \<open>Lines 91 to 94: the gradient of the embedding table.\<close>

definition update_d_vectors ::
  "'a::plus ops \<Rightarrow> 'a closure \<Rightarrow> 'a ndarray \<Rightarrow> 'a layer \<Rightarrow> (error + unit) \<times> 'a layer" where
  "update_d_vectors ops cl gradients L =
     (case W L of
        None \<Rightarrow> (Inl Unallocated, L)
      | Some w \<Rightarrow>
          (case batch_dot ops gradients (arr_T w) of
             Inl e \<Rightarrow> (Inl e, L)
           | Inr gradients' \<Rightarrow>
               (case d_vectors L of
                  None \<Rightarrow> (Inl Unallocated, L)
                | Some dv \<Rightarrow>
                    (case mod_ids (c_ids cl) (nV L) of
                       Inl e \<Rightarrow> (Inl e, L)
                     | Inr idx \<Rightarrow>
                         (case index_iadd_rows dv idx gradients' of
                            Inl e \<Rightarrow> (Inl e, L)
                          | Inr dv' \<Rightarrow> (Inr (), set_d_vectors dv' L))))))"

text \<open>Lines 95 to 99: the call of the optimizer.\<close>

definition run_sgd :: "'a sgd \<Rightarrow> 'a layer \<Rightarrow> (error + unit) \<times> 'a layer" where
  "run_sgd f L =
     (if is_static L then
        (case W L of
           None \<Rightarrow> (Inl Unallocated, L)
         | Some w \<Rightarrow>
             (case alloc (flatten w) L of
                (rw, L1) \<Rightarrow>
                  (case d_W L1 of
                     None \<Rightarrow> (Inl Unallocated, L1)
                   | Some dw \<Rightarrow>
                       (case alloc (flatten dw) L1 of
                          (rg, L2) \<Rightarrow> (Inr (), call_sgd f rw rg (mem_id L2) L2)))))
      else (Inr (), call_sgd f MemWeights MemGradient (mem_id L) L))"

text \<open>The closure \<^verbatim>\<open>finish_update\<close> of \<^verbatim>\<open>begin_update\<close>.\<close>

definition finish_update ::
  "'a::plus ops \<Rightarrow> 'a closure \<Rightarrow> 'a ndarray \<Rightarrow> 'a sgd option \<Rightarrow> 'a layer \<Rightarrow> (error + unit) \<times> 'a layer" where
  "finish_update ops cl gradients sgd L =
     (case d_W L of
        None \<Rightarrow> (Inl Unallocated, L)
      | Some dw \<Rightarrow>
          (case batch_outer ops gradients (c_vectors cl) of
             Inl e \<Rightarrow> (Inl e, L)
           | Inr outer \<Rightarrow>
               (case iadd dw outer of
                  Inl e \<Rightarrow> (Inl e, L)
                | Inr dw' \<Rightarrow>
                    (case (if \<not> is_static L then update_d_vectors ops cl gradients (set_d_W dw' L)
                           else (Inr (), set_d_W dw' L)) of
                       (Inl e, L') \<Rightarrow> (Inl e, L')
                     | (Inr u, L') \<Rightarrow>
                         (case sgd of
                            None \<Rightarrow> (Inr (), L')
                          | Some f \<Rightarrow> run_sgd f L')))))"

text \<open>
  A caller that invokes \<^verbatim>\<open>finish_update\<close> several times, going on after a call that
  raised: each entry is the closure, the upstream gradient and the optimizer of one call.
\<close>

fun finish_updates ::
  "'a::plus ops \<Rightarrow> ('a closure \<times> 'a ndarray \<times> 'a sgd option) list \<Rightarrow> 'a layer \<Rightarrow> 'a layer" where
  "finish_updates ops [] L = L"
| "finish_updates ops ((cl, gradients, sgd) # calls) L =
     finish_updates ops calls (snd (finish_update ops cl gradients sgd L))"


text \<open>
  What one call of \<^verbatim>\<open>finish_update\<close> is to make of \<^verbatim>\<open>d_W\<close>: the batched outer product
  of the upstream gradient and the looked-up vectors added to it, and \<^verbatim>\<open>d_W\<close> as it was
  when the product or the addition raises.
\<close>

definition accumulate_d_W :: "'a::plus ops \<Rightarrow> 'a closure \<Rightarrow> 'a ndarray \<Rightarrow> 'a ndarray \<Rightarrow> 'a ndarray" where
  "accumulate_d_W ops cl gradients dw =
     (case batch_outer ops gradients (c_vectors cl) of
        Inl e \<Rightarrow> dw
      | Inr outer \<Rightarrow> (case iadd dw outer of Inl e \<Rightarrow> dw | Inr dw' \<Rightarrow> dw'))"

text \<open>
  A tensor read before a call (\<open>D0\<close>), after it (\<open>D1\<close>) and after a second call (\<open>D2\<close>):
  the three have one shape, and the change over both calls is the change of the first
  call added to itself, cell by cell. A tensor that is not allocated stays so.
\<close>

definition doubled ::
  "'a::{plus,minus} ndarray option \<Rightarrow> 'a ndarray option \<Rightarrow> 'a ndarray option \<Rightarrow> bool" where
  "doubled D0 D1 D2 =
     (case (D0, D1, D2) of
        (Some A0, Some A1, Some A2) \<Rightarrow>
          same_shape A1 A0 \<and> same_shape A2 A0 \<and>
          arr_sub A2 A0 = arr_add (arr_sub A1 A0) (arr_sub A1 A0)
      | (None, None, None) \<Rightarrow> True
      | _ \<Rightarrow> False)"



section \<open>Parameter snapshot\<close>

text \<open>
  \<^verbatim>\<open>Embed.use_params\<close> is a generator under \<^verbatim>\<open>contextlib.contextmanager\<close>. The block of
  the \<^verbatim>\<open>with\<close> statement is \<open>body\<close>: it runs at the \<^verbatim>\<open>yield\<close>, may mutate the layer and
  may raise. An exception of the block is raised again at the \<^verbatim>\<open>yield\<close>; the generator
  has no handler around it, so the exception leaves the generator there and the
  statements after the \<^verbatim>\<open>yield\<close> do not run.
\<close>

definition use_params ::
  "(nat \<rightharpoonup> 'a list) \<Rightarrow> ('a layer \<Rightarrow> (error + unit) \<times> 'a layer) \<Rightarrow> 'a layer \<Rightarrow> (error + unit) \<times> 'a layer" where
  "use_params params body L =
     (if is_static L then body L
      else
        (case params (mem_id L) of
           None \<Rightarrow> body L
         | Some param \<Rightarrow>
             (let backup = mem_weights L in
              case assign_all (mem_weights L) param of
                Inl e \<Rightarrow> (Inl e, L)
              | Inr ws \<Rightarrow>
                  (case body (L\<lparr>mem_weights := ws\<rparr>) of
                     (Inl e, L') \<Rightarrow> (Inl e, L')
                   | (Inr u, L') \<Rightarrow>
                       (case assign_all (mem_weights L') backup of
                          Inl e \<Rightarrow> (Inl e, L')
                        | Inr ws' \<Rightarrow> (Inr (), L'\<lparr>mem_weights := ws'\<rparr>))))))"


section \<open>A concrete backend and a concrete layer\<close>

text \<open>
  Modelled from the spec: the array backend is not among the sources. The spec has
  \<^verbatim>\<open>batch_dot\<close> project each row of its first argument through the rows of the second,
  and \<^verbatim>\<open>batch_outer\<close> sum the outer products of corresponding rows over the batch:
  the contractions of the second axes and of the first axes. They instantiate the
  parameter \<open>ops\<close> where a theorem is applied to concrete arrays.
\<close>

definition dot :: "'a::{plus,times,zero} list \<Rightarrow> 'a list \<Rightarrow> 'a" where
  "dot xs ys = foldr (+) (map2 (*) xs ys) 0"

definition tensordot_11 :: "'a::{plus,times,zero} ndarray \<Rightarrow> 'a ndarray \<Rightarrow> error + 'a ndarray" where
  "tensordot_11 x y =
     (if is_array x \<and> is_array y \<and> ncols x = ncols y
      then Inr \<lparr>ncols = nrows y, rws = map (\<lambda>r. map (dot r) (rws y)) (rws x)\<rparr>
      else Inl ValueError)"

definition tensordot_00 :: "'a::{plus,times,zero} ndarray \<Rightarrow> 'a ndarray \<Rightarrow> error + 'a ndarray" where
  "tensordot_00 x y =
     (if is_array x \<and> is_array y \<and> nrows x = nrows y
      then tensordot_11 (arr_T x) (arr_T y)
      else Inl ValueError)"

definition NumpyOps :: "'a::{plus,times,zero} ops" where
  "NumpyOps = \<lparr>batch_dot = tensordot_11, batch_outer = tensordot_00\<rparr>"

text \<open>
  A layer with \<^verbatim>\<open>nO = 2\<close>, \<^verbatim>\<open>nM = 1\<close>, \<^verbatim>\<open>nV = 2\<close>: \<^verbatim>\<open>W = [[1], [2]]\<close> and
  \<^verbatim>\<open>vectors = [[3], [4]]\<close> in the weight buffer, zero gradients. \<open>ex_closure\<close> is what
  \<^verbatim>\<open>begin_update\<close> keeps for the batch \<^verbatim>\<open>[0, 2]\<close>, whose two ids share bucket 0.
\<close>

definition ex_layer :: "int layer" where
  "ex_layer =
     \<lparr>nO = 2, nM = Some 1, nV = Some 2, is_static = False, mem_id = 7,
      mem_weights = [1, 2, 3, 4], mem_gradient = [0, 0, 0, 0],
      view_W = Some (View 0 2 1), view_vectors = Some (View 2 2 1), scratch = []\<rparr>"

definition ex_closure :: "int closure" where
  "ex_closure = \<lparr>c_ids = IntArray [0, 2], c_vectors = \<lparr>ncols = 1, rws = [[3], [3]]\<rparr>\<rparr>"

definition ex_gradients :: "int ndarray" where
  "ex_gradients = \<lparr>ncols = 2, rws = [[1, 0], [1, 0]]\<rparr>"

text \<open>
  The same layer with \<^verbatim>\<open>is_static=True\<close>, and an optimizer that takes a gradient step
  on the weights it is given and clears the gradient it is given.
\<close>

definition ex_static :: "int layer" where
  "ex_static = ex_layer\<lparr>is_static := True\<rparr>"

definition ex_sgd :: "int sgd" where
  "ex_sgd ws gs key = (map2 (-) ws gs, map (\<lambda>x. 0) gs)"


section \<open>Cells in single precision\<close>

text \<open>
  The tensors of the store are arrays of \<^verbatim>\<open>float32\<close>. The part of IEEE binary32 that
  the examples need is its integers: \<open>F32 x\<close> is the float whose value is the integer
  \<open>x\<close>, where \<open>x\<close> has at most 24 significant bits. The sum, difference and product of
  two such floats is the exact result rounded to 24 significant bits, to the nearest,
  ties to the even significand (overflow to infinity, beyond \<open>2^128\<close>, is left out).
\<close>

fun bitlen :: "nat \<Rightarrow> nat" where
  "bitlen n = (if n = 0 then 0 else Suc (bitlen (n div 2)))"

definition round_f32 :: "int \<Rightarrow> int" where
  "round_f32 x =
     (let m = nat \<bar>x\<bar>; e = bitlen m - 24; q = m div 2 ^ e; r = m mod 2 ^ e
      in sgn x * int ((if 2 ^ e < 2 * r \<or> (2 * r = 2 ^ e \<and> odd q) then q + 1 else q) * 2 ^ e))"

datatype f32 = F32 int

instantiation f32 :: "{zero,plus,minus,times}"
begin

definition zero_f32 :: f32 where
  "zero_f32 = F32 0"

fun plus_f32 :: "f32 \<Rightarrow> f32 \<Rightarrow> f32" where
  "plus_f32 (F32 a) (F32 b) = F32 (round_f32 (a + b))"

fun minus_f32 :: "f32 \<Rightarrow> f32 \<Rightarrow> f32" where
  "minus_f32 (F32 a) (F32 b) = F32 (round_f32 (a - b))"

fun times_f32 :: "f32 \<Rightarrow> f32 \<Rightarrow> f32" where
  "times_f32 (F32 a) (F32 b) = F32 (round_f32 (a * b))"

instance ..

end





section \<open>Dimension inference: properties\<close>

lemma array_max_Max: "X \<noteq> [] \<Longrightarrow> array_max X = Inr (Max (set X))"
proof (cases X)
  case (Cons x xs)
  then show ?thesis
    using Max.set_eq_fold [of x xs] by (simp add: array_max_def)
qed simp

lemma set_dimensions_unset:
  assumes "nV L = None" and "X \<noteq> []"
  shows "set_dimensions_if_needed L X =
           (if Max (set X) + 1 \<ge> 10000000 then (Inl ValueError, L)
            else (Inr (), L\<lparr>nV := Some (Max (set X) + 1)\<rparr>))"
  unfolding set_dimensions_if_needed_def Let_def
  by (simp only: assms array_max_Max [OF assms(2)] sum.case simp_thms if_True)

lemma set_dimensions_set: "nV L \<noteq> None \<Longrightarrow> set_dimensions_if_needed L Y = (Inr (), L)"
  by (auto simp add: set_dimensions_if_needed_def)

text \<open>
  The forward calls \<^verbatim>\<open>predict\<close> and \<^verbatim>\<open>begin_update\<close> (lines 70 to 86) do not call
  \<^verbatim>\<open>_set_dimensions_if_needed\<close> and assign no attribute of the layer. On a layer whose
  \<^verbatim>\<open>nV\<close> is unset, with a batch whose maximum is 6, they raise, and \<^verbatim>\<open>nV\<close> is not 7 but
  unset as before: on the layer as constructed, and also on a layer whose tensors are
  there (where \<^verbatim>\<open>ids % None\<close> raises \<^verbatim>\<open>TypeError\<close>).
\<close>

theorem forward_call_leaves_nV_unset:
  "nV (init 4 (Some 3) None False 7 :: int layer) = None \<and>
   predict NumpyOps (init 4 (Some 3) None False 7 :: int layer) (IntArray [0, 1, 5, 6]) =
     Inl Unallocated \<and>
   begin_update NumpyOps (init 4 (Some 3) None False 7 :: int layer) (IntArray [0, 1, 5, 6])
     (0::nat) = Inl Unallocated \<and>
   nV (ex_layer\<lparr>nV := None\<rparr>) = None \<and>
   predict NumpyOps (ex_layer\<lparr>nV := None\<rparr>) (IntArray [0, 1, 5, 6]) = Inl TypeError \<and>
   begin_update NumpyOps (ex_layer\<lparr>nV := None\<rparr>) (IntArray [0, 1, 5, 6]) (0::nat) = Inl TypeError"
  by (simp add: init_def ex_layer_def predict_def begin_update_def embed_def vectors_def
      mod_ids_def)

text \<open>
  C3, amended to the hook. The function \<^verbatim>\<open>_set_dimensions_if_needed\<close>, which the class
  registers with \<^verbatim>\<open>describe.on_data\<close>, run on a layer whose \<^verbatim>\<open>nV\<close> is unset and a
  batch \<open>X\<close> with maximum \<open>m\<close> and \<open>m + 1\<close> below the cap, sets \<^verbatim>\<open>nV\<close> to \<open>m + 1\<close> and
  changes nothing else; run again on the layer so obtained, with any batch \<open>Y\<close> whatever
  (empty, or with a larger maximum, or one beyond the cap), it returns normally and
  leaves the layer as it is.
\<close>

theorem dimension_inference_once:
  assumes "nV L = None" and "X \<noteq> []" and "Max (set X) + 1 < 10000000"
  shows "set_dimensions_if_needed L X = (Inr (), L\<lparr>nV := Some (Max (set X) + 1)\<rparr>) \<and>
         set_dimensions_if_needed (L\<lparr>nV := Some (Max (set X) + 1)\<rparr>) Y =
           (Inr (), L\<lparr>nV := Some (Max (set X) + 1)\<rparr>)"
proof
  from assms(3) have "\<not> Max (set X) + 1 \<ge> 10000000" by linarith
  then show "set_dimensions_if_needed L X = (Inr (), L\<lparr>nV := Some (Max (set X) + 1)\<rparr>)"
    by (simp only: set_dimensions_unset [OF assms(1,2)] if_False)
  show "set_dimensions_if_needed (L\<lparr>nV := Some (Max (set X) + 1)\<rparr>) Y =
          (Inr (), L\<lparr>nV := Some (Max (set X) + 1)\<rparr>)"
    by (rule set_dimensions_set) simp
qed

theorem dimension_inference_once_witness:
  "nV (init 4 (Some 3) None False 7 :: int layer) = None \<and>
   set_dimensions_if_needed (init 4 (Some 3) None False 7 :: int layer) [0, 1, 5, 6] =
     (Inr (), (init 4 (Some 3) None False 7)\<lparr>nV := Some 7\<rparr>) \<and>
   set_dimensions_if_needed ((init 4 (Some 3) None False 7 :: int layer)\<lparr>nV := Some 7\<rparr>) [20000000] =
     (Inr (), (init 4 (Some 3) None False 7)\<lparr>nV := Some 7\<rparr>)"
  using dimension_inference_once [of "init 4 (Some 3) None False 7 :: int layer" "[0, 1, 5, 6]" "[20000000]"]
  by (simp add: init_def)

text \<open>
  C4. On a layer whose \<^verbatim>\<open>nV\<close> is unset, a batch whose maximum plus one is at least
  10,000,000 makes the hook raise (the source raises \<^verbatim>\<open>ValueError\<close>), and the layer it
  leaves is the layer it was given: \<^verbatim>\<open>nV\<close> is still unset, and \<^verbatim>\<open>W\<close> and \<^verbatim>\<open>vectors\<close>
  are what they were, so unallocated if they were.
\<close>

theorem cap_enforcement:
  assumes "nV L = None" and "X \<noteq> []" and "Max (set X) + 1 \<ge> 10000000"
  shows "set_dimensions_if_needed L X = (Inl ValueError, L) \<and>
         nV (snd (set_dimensions_if_needed L X)) = None \<and>
         W (snd (set_dimensions_if_needed L X)) = W L \<and>
         vectors (snd (set_dimensions_if_needed L X)) = vectors L"
  by (simp only: set_dimensions_unset [OF assms(1,2)] assms(1,3) if_True snd_conv simp_thms)

theorem cap_enforcement_witness:
  "nV (init 4 (Some 3) None False 7 :: int layer) = None \<and>
   set_dimensions_if_needed (init 4 (Some 3) None False 7 :: int layer) [3, 9999999] =
     (Inl ValueError, init 4 (Some 3) None False 7) \<and>
   W (snd (set_dimensions_if_needed (init 4 (Some 3) None False 7 :: int layer) [3, 9999999])) = None \<and>
   vectors (snd (set_dimensions_if_needed (init 4 (Some 3) None False 7 :: int layer) [3, 9999999])) = None"
  using cap_enforcement [of "init 4 (Some 3) None False 7 :: int layer" "[3, 9999999]"]
  by (simp add: init_def W_def vectors_def)


section \<open>Forward pass: properties\<close>

lemma those_norm_index_mod:
  assumes "0 < n"
  shows "those (map (\<lambda>i. norm_index (nat n) (np_mod (f i) n)) ids) = Some (map (\<lambda>i. nat (f i mod n)) ids)"
  using assms by (induction ids) (simp_all add: norm_index_def np_mod_def)

lemma embed_integer_cells:
  assumes "nV L = Some n" and "0 < n" and "n < 2 ^ 63" and "vectors L = Some vs"
    and "nrows vs = nat n"
  shows "embed L (IntArray ws) =
           Inr \<lparr>ncols = ncols vs, rws = map (\<lambda>w. rws vs ! nat (sint w mod n)) ws\<rparr>"
    and "embed L (BoolArray bs) =
           Inr \<lparr>ncols = ncols vs, rws = map (\<lambda>b. rws vs ! nat ((if b then 1 else 0) mod n)) bs\<rparr>"
  using assms
  by (simp_all add: embed_def mod_ids_def in_int64_def index_rows_def take_rows_def
      those_norm_index_mod comp_def)

text \<open>
  C5. With \<^verbatim>\<open>nV = n > 0\<close> and an allocated table of \<open>n\<close> rows, \<^verbatim>\<open>_embed\<close> returns
  normally for every \<^verbatim>\<open>int64\<close> array of ids, whatever the size and sign of an id within
  the dtype; the row it returns for the id \<open>i\<close> is row \<open>i mod n\<close> of the table, which is
  a row of the table; and two ids with the same residue give the same result.
\<close>

theorem embed_bucketing:
  assumes "nV L = Some n" and "0 < n" and "n < 2 ^ 63" and "vectors L = Some vs"
    and "nrows vs = nat n"
  shows "embed L (IntArray ws) =
           Inr \<lparr>ncols = ncols vs, rws = map (\<lambda>w. rws vs ! nat (sint w mod n)) ws\<rparr> \<and>
         list_all (\<lambda>w. nat (sint w mod n) < nrows vs) ws \<and>
         (sint w1 mod n = sint w2 mod n \<longrightarrow> embed L (IntArray [w1]) = embed L (IntArray [w2]))"
proof -
  have "nat (i mod n) < nrows vs" for i
    using assms(2,5) by (simp add: nat_less_iff)
  then have "list_all (\<lambda>w. nat (sint w mod n) < nrows vs) ws"
    by (simp add: list_all_iff)
  then show ?thesis
    by (simp add: embed_integer_cells(1) [OF assms])
qed

theorem embed_bucketing_witness:
  "nV ex_layer = Some 2 \<and> vectors ex_layer = Some \<lparr>ncols = 1, rws = [[3], [4]]\<rparr> \<and>
   embed ex_layer
     (IntArray [0, 1, 5, 6, - 3, 9223372036854775807, - 9223372036854775808]) =
     Inr \<lparr>ncols = 1, rws = [[3], [4], [4], [3], [4], [4], [3]]\<rparr> \<and>
   embed ex_layer (IntArray [5]) = embed ex_layer (IntArray [- 3])"
  using embed_bucketing [of ex_layer 2 "\<lparr>ncols = 1, rws = [[3], [4]]\<rparr>"
      "[0, 1, 5, 6, - 3, 9223372036854775807, - 9223372036854775808]" 5 "- 3"]
  by (simp add: ex_layer_def vectors_def read_view_def nrows_def numeral_2_eq_2)

text \<open>
  The claim that a batch whose contents are not integers is rejected before the lookup
  fails on an array of booleans: the only check, \<^verbatim>\<open>@check.arg(1, is_int_array)\<close> on
  \<^verbatim>\<open>predict\<close>, is commented out and \<^verbatim>\<open>begin_update\<close> has none, so on \<open>ex_layer\<close> the
  batch \<^verbatim>\<open>[True, False]\<close> is looked up as the ids 1 and 0 and both calls return.
\<close>

theorem predict_accepts_bool_batch:
  "predict NumpyOps ex_layer (BoolArray [True, False]) =
     Inr \<lparr>ncols = 2, rws = [[4, 8], [3, 6]]\<rparr> \<and>
   map_sum id fst (begin_update NumpyOps ex_layer (BoolArray [True, False]) (0::nat)) =
     Inr \<lparr>ncols = 2, rws = [[4, 8], [3, 6]]\<rparr>"
  by (simp add: predict_def begin_update_def embed_def vectors_def W_def ex_layer_def
      read_view_def mod_ids_def in_int64_def np_mod_def index_rows_def take_rows_def
      norm_index_def nrows_def NumpyOps_def tensordot_11_def is_array_def dot_def
      numeral_2_eq_2)

text \<open>
  C8, amended. \<^verbatim>\<open>predict\<close> and the forward pass of \<^verbatim>\<open>begin_update\<close> check nothing of
  the batch themselves. A batch of floats is rejected on every layer, and on a layer with
  \<^verbatim>\<open>nV = n > 0\<close> and a table of \<open>n\<close> rows it is rejected by the lookup itself: numpy
  refuses the float index array with \<^verbatim>\<open>IndexError\<close> and reads no row. A batch of booleans
  is not rejected: \<^verbatim>\<open>_embed\<close> returns row 1 (modulo \<open>n\<close>) for \<^verbatim>\<open>True\<close> and row 0 for
  \<^verbatim>\<open>False\<close>.
\<close>

theorem forward_pass_checks_no_dtype:
  "(\<exists>e. predict ops L (FloatArray xs) = Inl e \<and> begin_update ops L (FloatArray xs) drop' = Inl e) \<and>
   (nV L = Some n \<and> 0 < n \<and> n < 2 ^ 63 \<and> vectors L = Some vs \<and> nrows vs = nat n \<longrightarrow>
      predict ops L (FloatArray xs) = Inl IndexError \<and>
      begin_update ops L (FloatArray xs) drop' = Inl IndexError \<and>
      embed L (BoolArray bs) =
        Inr \<lparr>ncols = ncols vs, rws = map (\<lambda>b. rws vs ! nat ((if b then 1 else 0) mod n)) bs\<rparr>)"
proof -
  have "\<exists>e. embed L (FloatArray xs) = Inl e"
    by (simp add: embed_def mod_ids_def index_rows_def batch_len_def
        split: option.splits)
  then have 1: "\<exists>e. predict ops L (FloatArray xs) = Inl e \<and>
      begin_update ops L (FloatArray xs) drop' = Inl e"
    by (auto simp add: predict_def begin_update_def)
  have 2: "embed L (FloatArray xs) = Inl IndexError"
    if "nV L = Some n" and "vectors L = Some vs"
    using that by (simp add: embed_def mod_ids_def index_rows_def)
  show ?thesis
    using 1 2 embed_integer_cells(2) [of L n vs bs]
    by (auto simp add: predict_def begin_update_def)
qed

theorem forward_pass_checks_no_dtype_witness:
  "nV ex_layer = Some 2 \<and> vectors ex_layer = Some \<lparr>ncols = 1, rws = [[3], [4]]\<rparr> \<and>
   predict NumpyOps ex_layer (FloatArray [0, 1.5]) = Inl IndexError \<and>
   begin_update NumpyOps ex_layer (FloatArray [0, 1.5]) (0::nat) = Inl IndexError \<and>
   embed ex_layer (BoolArray [True, False, True]) = Inr \<lparr>ncols = 1, rws = [[4], [3], [4]]\<rparr>"
  using forward_pass_checks_no_dtype [of NumpyOps ex_layer "[0, 1.5]" "0::nat" 2
      "\<lparr>ncols = 1, rws = [[3], [4]]\<rparr>" "[True, False, True]"]
  by (simp add: ex_layer_def vectors_def read_view_def nrows_def numeral_2_eq_2)

text \<open>
  C9. For every batch and every value of \<^verbatim>\<open>drop\<close>, \<^verbatim>\<open>begin_update\<close> raises exactly
  where \<^verbatim>\<open>predict\<close> raises on the same layer, with the same exception, and otherwise its
  output is the output of \<^verbatim>\<open>predict\<close>.
\<close>

theorem begin_update_output_is_predict:
  "map_sum id fst (begin_update ops L ids drop') = predict ops L ids"
  by (simp add: begin_update_def predict_def split: sum.splits option.splits)


section \<open>Single precision: properties\<close>

declare bitlen.simps [simp del]







section \<open>Parameter snapshot: properties\<close>

text \<open>
  On a layer that is not static, with the store's identity a key of \<open>params\<close> and an
  alternate buffer of the length of the weight buffer, the block runs on the layer whose
  weight buffer is the alternate buffer. What follows depends on how the block ends.
\<close>

lemma use_params_override:
  assumes "\<not> is_static L" and "params (mem_id L) = Some alt"
    and "length alt = length (mem_weights L)"
  shows "use_params params body L =
     (case body (L\<lparr>mem_weights := alt\<rparr>) of
        (Inl e, L') \<Rightarrow> (Inl e, L')
      | (Inr u, L') \<Rightarrow>
          (case assign_all (mem_weights L') (mem_weights L) of
             Inl e \<Rightarrow> (Inl e, L')
           | Inr ws \<Rightarrow> (Inr (), L'\<lparr>mem_weights := ws\<rparr>)))"
  using assms by (simp add: use_params_def assign_all_def Let_def)

lemma use_params_normal_exit:
  assumes "\<not> is_static L" and "params (mem_id L) = Some alt"
    and "length alt = length (mem_weights L)"
    and "body (L\<lparr>mem_weights := alt\<rparr>) = (Inr u, L')"
    and "length (mem_weights L') = length (mem_weights L)"
  shows "use_params params body L = (Inr (), L'\<lparr>mem_weights := mem_weights L\<rparr>)"
  using assms use_params_override [of L params alt body] by (simp add: assign_all_def)

lemma use_params_raise:
  assumes "\<not> is_static L" and "params (mem_id L) = Some alt"
    and "length alt = length (mem_weights L)"
    and "body (L\<lparr>mem_weights := alt\<rparr>) = (Inl e, L')"
  shows "use_params params body L = (Inl e, L')"
  using assms use_params_override [of L params alt body] by simp


text \<open>
  C1. The claim asks for the weight buffer to be its value before the scope also when the
  block raises. The generator has no \<^verbatim>\<open>try\<close> around its \<^verbatim>\<open>yield\<close>: on the layer
  \<open>ex_layer\<close>, whose weight buffer is \<^verbatim>\<open>[1, 2, 3, 4]\<close>, with the alternate buffer
  \<^verbatim>\<open>[5, 6, 7, 8]\<close> under the store's key and a block that raises, the exception leaves
  \<^verbatim>\<open>use_params\<close> with the alternate buffer still in place. With a block that returns,
  the buffer is restored.
\<close>

theorem use_params_raise_keeps_override:
  "\<not> is_static ex_layer \<and> mem_id ex_layer = 7 \<and> mem_weights ex_layer = [1, 2, 3, 4] \<and>
   use_params [7 \<mapsto> [5, 6, 7, 8]] (\<lambda>L. (Inl TypeError, L)) ex_layer =
     (Inl TypeError, ex_layer\<lparr>mem_weights := [5, 6, 7, 8]\<rparr>) \<and>
   use_params [7 \<mapsto> [5, 6, 7, 8]] (\<lambda>L. (Inr (), L)) ex_layer = (Inr (), ex_layer)"
  by (simp add: use_params_def assign_all_def ex_layer_def)


section \<open>Windows of a flat buffer\<close>

lemma length_chop [simp]: "length (chop c r xs) = r"
  by (induction r arbitrary: xs) simp_all

lemma chop_rows_length: "r * c \<le> length xs \<Longrightarrow> list_all (\<lambda>x. length x = c) (chop c r xs)"
proof (induction r arbitrary: xs)
  case (Suc r)
  then have "c \<le> length xs" and "r * c \<le> length (drop c xs)" by simp_all
  with Suc.IH show ?case by simp
qed simp

lemma chop_concat:
  "length rows = r \<Longrightarrow> list_all (\<lambda>x. length x = c) rows \<Longrightarrow> chop c r (concat rows @ ys) = rows"
  by (induction rows arbitrary: r) auto

lemma chop_take: "r * c \<le> n \<Longrightarrow> chop c r (take n xs) = chop c r xs"
proof (induction r arbitrary: xs n)
  case (Suc r)
  then have 1: "c \<le> n" and 2: "r * c \<le> n - c" by simp_all
  have "drop c (take n xs) = take (n - c) (drop c xs)"
    by (simp add: drop_take)
  with Suc.IH [OF 2, of "drop c xs"] 1 show ?case
    by (simp add: min_absorb1)
qed simp

lemma length_flatten: "is_array A \<Longrightarrow> length (flatten A) = nrows A * ncols A"
proof -
  have "list_all (\<lambda>r. length r = c) rows \<Longrightarrow> length (concat rows) = length rows * c" for rows :: "'a list list" and c
    by (induction rows) simp_all
  then show "is_array A \<Longrightarrow> length (flatten A) = nrows A * ncols A"
    by (simp add: is_array_def flatten_def nrows_def)
qed

lemma has_shape_read_view: "in_bounds v buf \<Longrightarrow> has_shape (v_rows v) (v_cols v) (read_view v buf)"
  by (simp add: has_shape_def read_view_def nrows_def is_array_def in_bounds_def v_size_def chop_rows_length)

lemma length_write_view:
  assumes "in_bounds v buf" and "has_shape (v_rows v) (v_cols v) A"
  shows "length (write_view v buf A) = length buf"
  using assms by (simp add: write_view_def length_flatten has_shape_def in_bounds_def v_size_def)

lemma read_write_same:
  assumes "in_bounds v buf" and "has_shape (v_rows v) (v_cols v) A"
  shows "read_view v (write_view v buf A) = A"
proof -
  have "v_off v \<le> length buf"
    using assms(1) by (simp add: in_bounds_def)
  then have "drop (v_off v) (write_view v buf A) = concat (rws A) @ drop (v_off v + v_size v) buf"
    by (simp add: write_view_def flatten_def)
  moreover have "chop (v_cols v) (v_rows v) (concat (rws A) @ ys) = rws A" for ys
    using assms(2) by (intro chop_concat) (auto simp add: has_shape_def nrows_def is_array_def)
  ultimately show ?thesis
    using assms(2) by (simp add: read_view_def has_shape_def)
qed

lemma take_drop_prefix:
  assumes "k + n \<le> m" and "m \<le> length buf"
  shows "take n (drop k (take m buf @ ys)) = take n (drop k buf)"
proof -
  have "take (n + k) (take m buf @ ys) = take (n + k) buf"
    using assms by (simp add: min_absorb1)
  then have "drop k (take (n + k) (take m buf @ ys)) = drop k (take (n + k) buf)"
    by simp
  then show ?thesis
    by (simp only: take_drop)
qed

lemma read_write_other:
  assumes "in_bounds v buf" and "has_shape (v_rows v) (v_cols v) A" and "disjoint_views v w"
  shows "read_view w (write_view v buf A) = read_view w buf"
proof -
  have len: "length (flatten A) = v_size v"
    using assms(2) by (simp add: length_flatten has_shape_def v_size_def)
  have le: "v_off v + v_size v \<le> length buf"
    using assms(1) by (simp add: in_bounds_def)
  from assms(3) consider "v_off v + v_size v \<le> v_off w" | "v_off w + v_size w \<le> v_off v"
    by (auto simp add: disjoint_views_def)
  then have "chop (v_cols w) (v_rows w) (drop (v_off w) (write_view v buf A)) =
             chop (v_cols w) (v_rows w) (drop (v_off w) buf)"
  proof cases
    case 1
    then have "drop (v_off w) (write_view v buf A) = drop (v_off w) buf"
      using len le by (simp add: write_view_def)
    then show ?thesis by simp
  next
    case 2
    have "take (v_size w) (drop (v_off w) (write_view v buf A)) = take (v_size w) (drop (v_off w) buf)"
      unfolding write_view_def using 2 le by (intro take_drop_prefix) simp_all
    then have "chop (v_cols w) (v_rows w) (take (v_size w) (drop (v_off w) (write_view v buf A))) =
               chop (v_cols w) (v_rows w) (take (v_size w) (drop (v_off w) buf))"
      by simp
    then show ?thesis
      by (simp add: chop_take v_size_def)
  qed
  then show ?thesis
    by (simp add: read_view_def)
qed


section \<open>Array arithmetic\<close>

lemma ndarray_eqI: "ncols A = ncols B \<Longrightarrow> rws A = rws B \<Longrightarrow> A = (B :: 'a ndarray)"
  by simp

lemma has_shape_iff:
  "has_shape r c A \<longleftrightarrow> length (rws A) = r \<and> ncols A = c \<and> list_all (\<lambda>x. length x = c) (rws A)"
  by (auto simp add: has_shape_def nrows_def is_array_def)

lemma list_all_map2_add:
  "length xs = length ys \<Longrightarrow> list_all (\<lambda>x. length x = c) xs \<Longrightarrow> list_all (\<lambda>x. length x = c) ys \<Longrightarrow>
   list_all (\<lambda>x. length x = c) (map2 (map2 (+)) xs ys)"
  by (induction xs ys rule: list_induct2) simp_all

lemma map_length_map2_add:
  "length xs = length ys \<Longrightarrow> list_all (\<lambda>x. length x = c) xs \<Longrightarrow> list_all (\<lambda>x. length x = c) ys \<Longrightarrow>
   map length (map2 (map2 (+)) xs ys) = map length xs"
  by (induction xs ys rule: list_induct2) simp_all

lemma map_length_rows: "list_all (\<lambda>x. length x = c) xs \<Longrightarrow> map length xs = replicate (length xs) c"
  by (induction xs) simp_all

lemma has_shape_broadcast_to:
  assumes "broadcast_to R C B = Inr B'"
  shows "has_shape R C B'"
proof -
  from assms have B: "is_array B" "nrows B = R \<or> nrows B = 1" "ncols B = C \<or> ncols B = 1"
    and B': "B' = \<lparr>ncols = C,
                rws = (let rs = map (\<lambda>r. if ncols B = C then r else replicate C (hd r)) (rws B)
                       in if nrows B = R then rs else replicate R (hd rs))\<rparr>"
    by (auto simp add: broadcast_to_def split: if_splits)
  define rs where "rs = map (\<lambda>r. if ncols B = C then r else replicate C (hd r)) (rws B)"
  have rs: "list_all (\<lambda>r. length r = C) rs" "length rs = nrows B"
    using B(1) by (auto simp add: rs_def is_array_def list_all_iff nrows_def)
  have "nrows B \<noteq> R \<Longrightarrow> length (hd rs) = C"
    using rs B(2) by (cases rs) auto
  then show ?thesis
    using rs by (auto simp add: B' has_shape_def nrows_def is_array_def Let_def rs_def [symmetric] list_all_iff)
qed

lemma broadcast_to_same_shape:
  assumes "has_shape R C B"
  shows "broadcast_to R C B = Inr B"
  using assms by (auto simp add: broadcast_to_def has_shape_def intro!: ndarray_eqI)

lemma has_shape_arr_add:
  assumes "has_shape r c A" and "has_shape r c D"
  shows "has_shape r c (arr_add A D)"
proof -
  from assms have "length (rws A) = length (rws D)"
    and "list_all (\<lambda>x. length x = c) (rws A)" and "list_all (\<lambda>x. length x = c) (rws D)"
    by (simp_all add: has_shape_iff)
  then have "list_all (\<lambda>x. length x = c) (map2 (map2 (+)) (rws A) (rws D))"
    by (rule list_all_map2_add)
  then show ?thesis
    using assms by (simp add: has_shape_iff arr_add_def)
qed

lemma iadd_as_arr_add:
  assumes "iadd A G = Inr A'"
  shows "\<exists>D. has_shape (nrows A) (ncols A) D \<and>
             (\<forall>B. nrows B = nrows A \<and> ncols B = ncols A \<longrightarrow> iadd B G = Inr (arr_add B D))"
proof -
  from assms obtain D where D: "broadcast_to (nrows A) (ncols A) G = Inr D"
    by (auto simp add: iadd_def split: sum.splits)
  then have "has_shape (nrows A) (ncols A) D"
    by (rule has_shape_broadcast_to)
  moreover have "iadd B G = Inr (arr_add B D)" if "nrows B = nrows A \<and> ncols B = ncols A" for B
    using that D by (simp add: iadd_def)
  ultimately show ?thesis by blast
qed

lemma map2_sub_add_add:
  fixes a d :: "'a::ab_group_add list"
  assumes "length a = length d"
  shows "map2 (-) (map2 (+) (map2 (+) a d) d) a =
         map2 (+) (map2 (-) (map2 (+) a d) a) (map2 (-) (map2 (+) a d) a)"
  using assms by (induction a d rule: list_induct2) (simp_all add: algebra_simps)

lemma rows_sub_add_add:
  fixes As Ds :: "'a::ab_group_add list list"
  assumes "length As = length Ds"
    and "list_all (\<lambda>r. length r = c) As" and "list_all (\<lambda>r. length r = c) Ds"
  shows "map2 (map2 (-)) (map2 (map2 (+)) (map2 (map2 (+)) As Ds) Ds) As =
         map2 (map2 (+)) (map2 (map2 (-)) (map2 (map2 (+)) As Ds) As)
           (map2 (map2 (-)) (map2 (map2 (+)) As Ds) As)"
  using assms by (induction As Ds rule: list_induct2) (simp_all add: map2_sub_add_add)

lemma same_shape_arr_add:
  assumes "has_shape r c A" and "has_shape r c D"
  shows "same_shape (arr_add A D) A"
proof -
  from assms have "length (rws A) = length (rws D)"
    and "list_all (\<lambda>x. length x = c) (rws A)" and "list_all (\<lambda>x. length x = c) (rws D)"
    by (simp_all add: has_shape_iff)
  then have "map length (map2 (map2 (+)) (rws A) (rws D)) = map length (rws A)"
    by (rule map_length_map2_add)
  then show ?thesis
    by (simp add: arr_add_def same_shape_def)
qed

lemma same_shapeI: "has_shape r c A \<Longrightarrow> has_shape r c B \<Longrightarrow> same_shape A B"
  using map_length_rows [of c "rws A"] map_length_rows [of c "rws B"]
  by (simp add: has_shape_iff same_shape_def)

lemma doubled_arr_add:
  fixes A D :: "'a::ab_group_add ndarray"
  assumes "has_shape r c A" and "has_shape r c D"
  shows "doubled (Some A) (Some (arr_add A D)) (Some (arr_add (arr_add A D) D))"
proof -
  have 1: "has_shape r c (arr_add A D)"
    using assms by (rule has_shape_arr_add)
  then have 2: "has_shape r c (arr_add (arr_add A D) D)"
    using assms(2) by (rule has_shape_arr_add)
  from assms have "length (rws A) = length (rws D)"
    and "list_all (\<lambda>x. length x = c) (rws A)" and "list_all (\<lambda>x. length x = c) (rws D)"
    by (simp_all add: has_shape_iff)
  then have "arr_sub (arr_add (arr_add A D) D) A =
        arr_add (arr_sub (arr_add A D) A) (arr_sub (arr_add A D) A)"
    unfolding arr_sub_def arr_add_def ndarray.simps by (simp only: rows_sub_add_add)
  then show ?thesis
    using same_shapeI [OF 1 assms(1)] same_shapeI [OF 2 assms(1)] by (simp add: doubled_def)
qed

lemma doubled_same: "doubled D D (D :: 'a::ab_group_add ndarray option)"
proof (cases D)
  case (Some A)
  have "map2 (map2 (-)) xs xs = map2 (map2 (+)) (map2 (map2 (-)) xs xs) (map2 (map2 (-)) xs xs)"
    for xs :: "'a list list"
  proof (induction xs)
    case (Cons x xs)
    have "map2 (-) x x = map2 (+) (map2 (-) x x) (map2 (-) x x)"
      by (induction x) simp_all
    with Cons show ?case by simp
  qed simp
  then show ?thesis
    by (simp add: Some doubled_def same_shape_def arr_sub_def arr_add_def)
qed (simp add: doubled_def)


section \<open>Writing rows through an index array\<close>

text \<open>
  \<^verbatim>\<open>A[ks] += G\<close> adds to \<open>A\<close> an array that depends on the shape of \<open>A\<close>, on \<open>ks\<close> and
  on \<open>G\<close>, not on the cells of \<open>A\<close>: for a row that \<open>ks\<close> names, the row of \<open>G\<close> at the
  last position that names it, and zero for the other rows.
\<close>

lemma zip_map2_gather:
  "zip js (map2 f (map h js) gs) = map (\<lambda>(j, g). (j, f (h j) g)) (zip js gs)"
proof (induction js arbitrary: gs)
  case (Cons j js)
  then show ?case by (cases gs) simp_all
qed simp

lemma update_map2:
  "(map2 F V Z)[j := F (V ! j) g] = map2 F V (Z[j := g])"
proof -
  have "map2 F V (Z[j := g]) = map2 F (V[j := V ! j]) (Z[j := g])"
    by simp
  also have "\<dots> = map (\<lambda>(x, y). F x y) ((zip V Z)[j := (V ! j, g)])"
    by (simp only: update_zip fst_conv snd_conv)
  also have "\<dots> = (map2 F V Z)[j := F (V ! j) g]"
    by (simp add: map_update)
  finally show ?thesis by simp
qed

lemma fold_update_map2:
  "fold (\<lambda>(j, r) rs. rs[j := r]) (map (\<lambda>(j, g). (j, F (V ! j) g)) ps) (map2 F V Z) =
   map2 F V (fold (\<lambda>(j, g) rs. rs[j := g]) ps Z)"
proof (induction ps arbitrary: Z)
  case (Cons p ps)
  obtain j g where p: "p = (j, g)" by (cases p)
  show ?case
    using Cons.IH [of "Z[j := g]"] by (simp add: p update_map2)
qed simp

lemma map2_add_zero_row:
  fixes x :: "'a::comm_monoid_add list"
  shows "length x = c \<Longrightarrow> map2 (+) x (replicate c 0) = x"
  by (induction x arbitrary: c) auto

lemma map2_add_zero_rows:
  fixes xs :: "'a::comm_monoid_add list list"
  shows "list_all (\<lambda>x. length x = c) xs \<Longrightarrow>
         map2 (map2 (+)) xs (replicate (length xs) (replicate c 0)) = xs"
  by (induction xs) (simp_all add: map2_add_zero_row)

lemma scatter_gather_add:
  fixes V :: "'a::comm_monoid_add list list"
  assumes "list_all (\<lambda>x. length x = c) V"
  shows "scatter js (map2 (map2 (+)) (map (\<lambda>j. V ! j) js) gs) V =
         map2 (map2 (+)) V (scatter js gs (replicate (length V) (replicate c 0)))"
proof -
  have "scatter js (map2 (map2 (+)) (map (\<lambda>j. V ! j) js) gs)
          (map2 (map2 (+)) V (replicate (length V) (replicate c 0))) =
        map2 (map2 (+)) V (scatter js gs (replicate (length V) (replicate c 0)))"
    unfolding scatter_def zip_map2_gather by (rule fold_update_map2)
  then show ?thesis
    by (simp only: map2_add_zero_rows [OF assms])
qed

lemma list_all_update: "list_all P xs \<Longrightarrow> P x \<Longrightarrow> list_all P (xs[j := x])"
  by (induction xs arbitrary: j) (auto split: nat.splits)

lemma scatter_shape:
  "list_all P base \<Longrightarrow> list_all P rows \<Longrightarrow>
   list_all P (scatter js rows base) \<and> length (scatter js rows base) = length base"
proof (induction js arbitrary: rows base)
  case (Cons j js)
  show ?case
  proof (cases rows)
    case (Cons r rs)
    with Cons.prems Cons.IH [of "base[j := r]" rs] show ?thesis
      by (simp add: scatter_def list_all_update)
  qed (use Cons.prems in \<open>simp add: scatter_def\<close>)
qed (simp add: scatter_def)

lemma those_norm_index:
  "those (map (norm_index R) ks) = Some js \<Longrightarrow> length js = length ks \<and> list_all (\<lambda>j. j < R) js"
proof (induction ks arbitrary: js)
  case (Cons k ks)
  then show ?case
    by (auto simp add: norm_index_def split: option.splits if_splits)
qed simp

lemma iadd_rows_as_arr_add:
  fixes A :: "'a::ab_group_add ndarray"
  assumes "has_shape r c A" and "iadd_rows A ks G = Inr A'"
  shows "\<exists>D. has_shape r c D \<and> (\<forall>B. has_shape r c B \<longrightarrow> iadd_rows B ks G = Inr (arr_add B D))"
proof -
  have A: "nrows A = r" "ncols A = c" "length (rws A) = r"
    using assms(1) by (simp_all add: has_shape_def nrows_def)
  from assms(2) obtain js where js: "those (map (norm_index r) ks) = Some js"
    by (auto simp add: iadd_rows_def take_rows_def A split: option.splits)
  then have len: "length js = length ks" and bound: "list_all (\<lambda>j. j < r) js"
    using those_norm_index by blast+
  from assms(2) js obtain G' where G': "broadcast_to (length js) c G = Inr G'"
    by (auto simp add: iadd_rows_def take_rows_def iadd_def A nrows_def split: sum.splits)
  then have sG: "has_shape (length js) c G'"
    by (rule has_shape_broadcast_to)
  define D :: "'a ndarray" where "D = \<lparr>ncols = c, rws = scatter js (rws G') (replicate r (replicate c 0))\<rparr>"
  have "list_all (\<lambda>x. length x = c) (replicate r (replicate c (0::'a)))"
    by (simp add: list_all_iff)
  with sG have sD: "has_shape r c D"
    using scatter_shape [of "\<lambda>x. length x = c" "replicate r (replicate c 0)" "rws G'" js]
    by (simp add: D_def has_shape_iff)
  have "iadd_rows B ks G = Inr (arr_add B D)" if B: "has_shape r c B" for B :: "'a ndarray"
  proof -
    have B': "nrows B = r" "ncols B = c" "length (rws B) = r" "list_all (\<lambda>x. length x = c) (rws B)"
      using B by (auto simp add: has_shape_def nrows_def is_array_def)
    define tmp where "tmp = \<lparr>ncols = c, rws = map (\<lambda>j. rws B ! j) js\<rparr>"
    have take: "take_rows B ks = Inr tmp"
      by (simp add: take_rows_def B' js tmp_def)
    have "list_all (\<lambda>x. length x = c) (map (\<lambda>j. rws B ! j) js)"
      using bound B'(3,4) by (auto simp add: list_all_iff)
    then have stmp: "has_shape (length js) c tmp"
      by (simp add: tmp_def has_shape_iff)
    then have iadd: "iadd tmp G = Inr (arr_add tmp G')"
      using G' by (simp add: iadd_def has_shape_def)
    have stmp': "has_shape (length ks) c (arr_add tmp G')"
      using has_shape_arr_add [OF stmp sG] by (simp add: len)
    have "put_rows B ks (arr_add tmp G') =
            Inr (B\<lparr>rws := scatter js (rws (arr_add tmp G')) (rws B)\<rparr>)"
      by (simp add: put_rows_def B' js broadcast_to_same_shape [OF stmp'] scatter_def)
    also have "scatter js (rws (arr_add tmp G')) (rws B) = map2 (map2 (+)) (rws B) (rws D)"
      using scatter_gather_add [OF B'(4), of js "rws G'"] by (simp add: arr_add_def tmp_def D_def B')
    finally show ?thesis
      by (simp add: iadd_rows_def take iadd arr_add_def B')
  qed
  with sD show ?thesis by blast
qed


section \<open>Backward pass: properties\<close>

text \<open>
  C2. The claim asks for the row of \<^verbatim>\<open>d_vectors\<close> that two ids of a batch share to grow
  by the sum of their two gradient rows. \<^verbatim>\<open>d_vectors[ids % self.nV] += gradients\<close> reads
  the rows once and writes each of them back: on \<open>ex_layer\<close> with the batch \<^verbatim>\<open>[0, 2]\<close>,
  both ids in bucket 0 and both rows of the gradient with respect to the vectors equal to
  \<^verbatim>\<open>[1]\<close>, row 0 of \<^verbatim>\<open>d_vectors\<close> goes from \<^verbatim>\<open>[0]\<close> to \<^verbatim>\<open>[1]\<close>, not to \<^verbatim>\<open>[2]\<close>.
  Both writes store the same row, so the order of the writes does not matter here.
\<close>

theorem finish_update_duplicate_ids_overwrite:
  "begin_update NumpyOps ex_layer (IntArray [0, 2]) (0::nat) =
     Inr (\<lparr>ncols = 2, rws = [[3, 6], [3, 6]]\<rparr>, ex_closure) \<and>
   \<not> is_static ex_layer \<and>
   mod_ids (c_ids ex_closure) (nV ex_layer) = Inr (IntIndices [0, 0]) \<and>
   W ex_layer = Some \<lparr>ncols = 1, rws = [[1], [2]]\<rparr> \<and>
   batch_dot NumpyOps ex_gradients (arr_T \<lparr>ncols = 1, rws = [[1], [2]]\<rparr>) =
     Inr \<lparr>ncols = 1, rws = [[1], [1]]\<rparr> \<and>
   d_vectors ex_layer = Some \<lparr>ncols = 1, rws = [[0], [0]]\<rparr> \<and>
   fst (finish_update NumpyOps ex_closure ex_gradients None ex_layer) = Inr () \<and>
   d_vectors (snd (finish_update NumpyOps ex_closure ex_gradients None ex_layer)) =
     Some \<lparr>ncols = 1, rws = [[1], [0]]\<rparr>"
  by (simp add: ex_layer_def ex_closure_def ex_gradients_def NumpyOps_def tensordot_11_def
      tensordot_00_def dot_def
      nrows_def is_array_def flatten_def arr_T_def arr_add_def np_mod_def mod_ids_def in_int64_def
      index_rows_def index_iadd_rows_def norm_index_def take_rows_def broadcast_to_def iadd_def scatter_def put_rows_def iadd_rows_def
      v_size_def read_view_def write_view_def W_def vectors_def d_W_def d_vectors_def
      set_d_W_def set_d_vectors_def
      begin_update_def embed_def finish_update_def update_d_vectors_def numeral_2_eq_2 upt_rec)

lemma scratch_frame [simp]:
  "W (L\<lparr>scratch := S\<rparr>) = W L" "d_W (L\<lparr>scratch := S\<rparr>) = d_W L"
  "vectors (L\<lparr>scratch := S\<rparr>) = vectors L" "d_vectors (L\<lparr>scratch := S\<rparr>) = d_vectors L"
  by (simp_all add: W_def d_W_def vectors_def d_vectors_def)

lemma set_d_W_frame [simp]:
  "is_static (set_d_W A L) = is_static L" "mem_weights (set_d_W A L) = mem_weights L"
  "view_W (set_d_W A L) = view_W L" "view_vectors (set_d_W A L) = view_vectors L"
  "nV (set_d_W A L) = nV L" "mem_id (set_d_W A L) = mem_id L" "scratch (set_d_W A L) = scratch L"
  "W (set_d_W A L) = W L" "vectors (set_d_W A L) = vectors L"
  by (simp_all add: set_d_W_def W_def vectors_def split: option.splits)

lemma set_d_vectors_frame [simp]:
  "is_static (set_d_vectors A L) = is_static L" "mem_weights (set_d_vectors A L) = mem_weights L"
  "view_W (set_d_vectors A L) = view_W L" "view_vectors (set_d_vectors A L) = view_vectors L"
  "nV (set_d_vectors A L) = nV L" "mem_id (set_d_vectors A L) = mem_id L"
  "scratch (set_d_vectors A L) = scratch L"
  "W (set_d_vectors A L) = W L" "vectors (set_d_vectors A L) = vectors L"
  by (simp_all add: set_d_vectors_def W_def vectors_def split: option.splits)

lemma run_sgd_static:
  assumes "is_static L" and "W L = Some w" and "d_W L = Some dw"
  shows "run_sgd f L =
           (Inr (), L\<lparr>scratch := scratch L @
              [fst (f (flatten w) (flatten dw) (mem_id L)), snd (f (flatten w) (flatten dw) (mem_id L))]\<rparr>)"
proof -
  obtain w' g' where f: "f (flatten w) (flatten dw) (mem_id L) = (w', g')"
    by (cases "f (flatten w) (flatten dw) (mem_id L)")
  have "d_W (L\<lparr>scratch := scratch L @ [flatten w]\<rparr>) = Some dw"
    using assms(3) by simp
  then show ?thesis
    using assms(1,2) f
    by (simp add: run_sgd_def alloc_def call_sgd_def deref_def assign_def nth_append list_update_append)
qed

lemma finish_update_static_None:
  assumes "is_static L"
  shows "finish_update ops cl g None L =
     (case d_W L of
        None \<Rightarrow> (Inl Unallocated, L)
      | Some dw \<Rightarrow>
          (case batch_outer ops g (c_vectors cl) of
             Inl e \<Rightarrow> (Inl e, L)
           | Inr outer \<Rightarrow>
               (case iadd dw outer of
                  Inl e \<Rightarrow> (Inl e, L)
                | Inr dw' \<Rightarrow> (Inr (), set_d_W dw' L))))"
  using assms by (simp add: finish_update_def split: option.splits sum.splits)

lemma W_of_d_W: "d_W L = Some dw \<Longrightarrow> \<exists>w. W L = Some w"
  by (auto simp add: d_W_def W_def)

lemma d_W_of_set_d_W: "d_W L = Some dw \<Longrightarrow> \<exists>dw'. d_W (set_d_W A L) = Some dw'"
  by (auto simp add: d_W_def set_d_W_def)


lemma finish_update_static_sgd:
  assumes "is_static L"
  shows "case finish_update ops cl g None L of
           (Inl e, L0) \<Rightarrow> finish_update ops cl g (Some f) L = (Inl e, L0)
         | (Inr u, L0) \<Rightarrow>
             (case (W L0, d_W L0) of
                (Some w, Some dw) \<Rightarrow>
                  finish_update ops cl g (Some f) L =
                    (Inr (), L0\<lparr>scratch := scratch L0 @
                       [fst (f (flatten w) (flatten dw) (mem_id L0)),
                        snd (f (flatten w) (flatten dw) (mem_id L0))]\<rparr>)
              | _ \<Rightarrow> False)"
proof (cases "finish_update ops cl g None L")
  case (Pair r L0)
  show ?thesis
  proof (cases r)
    case (Inl e)
    with Pair assms show ?thesis
      by (auto simp add: finish_update_def split: option.splits sum.splits)
  next
    case (Inr u)
    with Pair assms obtain dw X dw' where dw: "d_W L = Some dw"
      and "batch_outer ops g (c_vectors cl) = Inr X" and "iadd dw X = Inr dw'"
      and L0: "L0 = set_d_W dw' L"
      by (auto simp add: finish_update_static_None split: option.splits sum.splits)
    moreover obtain w dw0 where w: "W L0 = Some w" "d_W L0 = Some dw0"
      using W_of_d_W [OF dw] d_W_of_set_d_W [OF dw, of dw'] by (auto simp add: L0)
    moreover have "run_sgd f L0 =
         (Inr (), L0\<lparr>scratch := scratch L0 @
            [fst (f (flatten w) (flatten dw0) (mem_id L0)), snd (f (flatten w) (flatten dw0) (mem_id L0))]\<rparr>)"
      using assms w by (intro run_sgd_static) (simp_all add: L0)
    ultimately show ?thesis
      using Pair Inr assms by (simp add: finish_update_def)
  qed
qed

lemma finish_update_static_Some:
  assumes "is_static L"
  shows "\<exists>S. snd (finish_update ops cl g sgd L) = (snd (finish_update ops cl g None L))\<lparr>scratch := S\<rparr>"
proof (cases sgd)
  case None
  have "snd (finish_update ops cl g None L) =
        (snd (finish_update ops cl g None L))\<lparr>scratch := scratch (snd (finish_update ops cl g None L))\<rparr>"
    by simp
  then show ?thesis unfolding None by blast
next
  case (Some f)
  obtain r L0 where none: "finish_update ops cl g None L = (r, L0)"
    by (cases "finish_update ops cl g None L")
  have "\<exists>S. snd (finish_update ops cl g (Some f) L) = L0\<lparr>scratch := S\<rparr>"
  proof (cases r)
    case (Inl e)
    with finish_update_static_sgd [OF assms, of ops cl g f] none
    have "snd (finish_update ops cl g (Some f) L) = L0\<lparr>scratch := scratch L0\<rparr>"
      by simp
    then show ?thesis by blast
  next
    case (Inr u)
    with finish_update_static_sgd [OF assms, of ops cl g f] none show ?thesis
      by (auto split: option.splits)
  qed
  then show ?thesis
    by (simp add: Some none)
qed

text \<open>
  C10. On a static layer the optimizer is handed two arrays that \<^verbatim>\<open>flatten()\<close> has just
  made. Whatever the callback \<open>f\<close> writes into them, the call of \<^verbatim>\<open>finish_update\<close> ends
  as it ends without an optimizer, and both flat buffers of the store, and so \<^verbatim>\<open>W\<close> and
  \<^verbatim>\<open>d_W\<close>, are what they are without an optimizer. When the call returns, the layer
  differs from the layer without an optimizer only in the two new arrays, which hold what
  the callback made of the flattened \<^verbatim>\<open>W\<close> and the flattened \<^verbatim>\<open>d_W\<close>.
\<close>

theorem static_sgd_gets_copies:
  assumes "is_static L"
  shows "fst (finish_update ops cl g (Some f) L) = fst (finish_update ops cl g None L) \<and>
         mem_weights (snd (finish_update ops cl g (Some f) L)) =
           mem_weights (snd (finish_update ops cl g None L)) \<and>
         mem_gradient (snd (finish_update ops cl g (Some f) L)) =
           mem_gradient (snd (finish_update ops cl g None L)) \<and>
         W (snd (finish_update ops cl g (Some f) L)) = W (snd (finish_update ops cl g None L)) \<and>
         d_W (snd (finish_update ops cl g (Some f) L)) = d_W (snd (finish_update ops cl g None L)) \<and>
         (case finish_update ops cl g None L of
            (Inl e, L0) \<Rightarrow> finish_update ops cl g (Some f) L = (Inl e, L0)
          | (Inr u, L0) \<Rightarrow>
              (case (W L0, d_W L0) of
                 (Some w, Some dw) \<Rightarrow>
                   finish_update ops cl g (Some f) L =
                     (Inr (), L0\<lparr>scratch := scratch L0 @
                        [fst (f (flatten w) (flatten dw) (mem_id L0)),
                         snd (f (flatten w) (flatten dw) (mem_id L0))]\<rparr>)
               | _ \<Rightarrow> False))"
  using finish_update_static_sgd [OF assms, of ops cl g f]
  by (auto split: prod.splits sum.splits option.splits)

theorem static_sgd_gets_copies_witness:
  "is_static ex_static \<and>
   finish_update NumpyOps ex_closure ex_gradients None ex_static =
     (Inr (), ex_static\<lparr>mem_gradient := [6, 0, 0, 0]\<rparr>) \<and>
   finish_update NumpyOps ex_closure ex_gradients (Some ex_sgd) ex_static =
     (Inr (), ex_static\<lparr>mem_gradient := [6, 0, 0, 0], scratch := [[- 5, 2], [0, 0]]\<rparr>) \<and>
   W (snd (finish_update NumpyOps ex_closure ex_gradients (Some ex_sgd) ex_static)) =
     Some \<lparr>ncols = 1, rws = [[1], [2]]\<rparr> \<and>
   d_W (snd (finish_update NumpyOps ex_closure ex_gradients (Some ex_sgd) ex_static)) =
     Some \<lparr>ncols = 1, rws = [[6], [0]]\<rparr>"
  using static_sgd_gets_copies [of ex_static NumpyOps ex_closure ex_gradients ex_sgd]
  by (simp add: ex_layer_def ex_closure_def ex_gradients_def NumpyOps_def tensordot_11_def
      tensordot_00_def dot_def ex_static_def ex_sgd_def
      nrows_def is_array_def flatten_def arr_T_def arr_add_def np_mod_def mod_ids_def in_int64_def
      index_rows_def index_iadd_rows_def norm_index_def take_rows_def broadcast_to_def iadd_def scatter_def put_rows_def iadd_rows_def
      v_size_def read_view_def write_view_def W_def vectors_def d_W_def d_vectors_def
      set_d_W_def set_d_vectors_def
      finish_update_def run_sgd_def alloc_def call_sgd_def deref_def assign_def
      numeral_2_eq_2 upt_rec)

lemma shape_read_view [simp]: "nrows (read_view v buf) = v_rows v" "ncols (read_view v buf) = v_cols v"
  by (simp_all add: read_view_def nrows_def)

lemma disjoint_views_sym: "disjoint_views v w \<Longrightarrow> disjoint_views w v"
  by (auto simp add: disjoint_views_def)

lemma in_bounds_write_view:
  assumes "in_bounds v buf" and "has_shape (v_rows v) (v_cols v) A"
  shows "in_bounds w (write_view v buf A) = in_bounds w buf"
  using length_write_view [OF assms] by (simp add: in_bounds_def)

lemma set_d_W_wf:
  assumes "wf_layer L" and "d_W L = Some dw" and "has_shape (nrows dw) (ncols dw) A"
  shows "wf_layer (set_d_W A L)" and "d_W (set_d_W A L) = Some A"
    and "d_vectors (set_d_W A L) = d_vectors L"
proof -
  from assms(2) obtain v where v: "view_W L = Some v" and dw: "dw = read_view v (mem_gradient L)"
    by (auto simp add: d_W_def)
  have b: "in_bounds v (mem_gradient L)"
    using assms(1) v by (simp add: wf_layer_def)
  have s: "has_shape (v_rows v) (v_cols v) A"
    using assms(3) by (simp add: dw)
  show "wf_layer (set_d_W A L)"
    using assms(1) v
    by (auto simp add: wf_layer_def set_d_W_def in_bounds_write_view [OF b s]
        length_write_view [OF b s] split: option.splits)
  show "d_W (set_d_W A L) = Some A"
    using v by (simp add: d_W_def set_d_W_def read_write_same [OF b s])
  show "d_vectors (set_d_W A L) = d_vectors L"
  proof (cases "view_vectors L")
    case (Some w)
    then have "disjoint_views v w"
      using assms(1) v by (simp add: wf_layer_def)
    then show ?thesis
      using v Some by (simp add: d_vectors_def set_d_W_def read_write_other [OF b s])
  qed (simp add: d_vectors_def)
qed

lemma set_d_vectors_wf:
  assumes "wf_layer L" and "d_vectors L = Some dv" and "has_shape (nrows dv) (ncols dv) A"
  shows "wf_layer (set_d_vectors A L)" and "d_vectors (set_d_vectors A L) = Some A"
    and "d_W (set_d_vectors A L) = d_W L"
proof -
  from assms(2) obtain v where v: "view_vectors L = Some v" and dv: "dv = read_view v (mem_gradient L)"
    by (auto simp add: d_vectors_def)
  have b: "in_bounds v (mem_gradient L)"
    using assms(1) v by (simp add: wf_layer_def)
  have s: "has_shape (v_rows v) (v_cols v) A"
    using assms(3) by (simp add: dv)
  show "wf_layer (set_d_vectors A L)"
    using assms(1) v
    by (auto simp add: wf_layer_def set_d_vectors_def in_bounds_write_view [OF b s]
        length_write_view [OF b s] split: option.splits)
  show "d_vectors (set_d_vectors A L) = Some A"
    using v by (simp add: d_vectors_def set_d_vectors_def read_write_same [OF b s])
  show "d_W (set_d_vectors A L) = d_W L"
  proof (cases "view_W L")
    case (Some w)
    then have "disjoint_views v w"
      using assms(1) v by (auto simp add: wf_layer_def intro: disjoint_views_sym)
    then show ?thesis
      using v Some by (simp add: d_W_def set_d_vectors_def read_write_other [OF b s])
  qed (simp add: d_W_def)
qed

lemma has_shape_d_W:
  assumes "wf_layer L" and "d_W L = Some dw"
  shows "has_shape (nrows dw) (ncols dw) dw"
proof -
  from assms(2) obtain v where v: "view_W L = Some v" and dw: "dw = read_view v (mem_gradient L)"
    by (auto simp add: d_W_def)
  have "in_bounds v (mem_gradient L)"
    using assms(1) v by (simp add: wf_layer_def)
  then show ?thesis
    using has_shape_read_view [of v "mem_gradient L"] by (simp add: dw)
qed

lemma has_shape_d_vectors:
  assumes "wf_layer L" and "d_vectors L = Some dv"
  shows "has_shape (nrows dv) (ncols dv) dv"
proof -
  from assms(2) obtain v where v: "view_vectors L = Some v" and dv: "dv = read_view v (mem_gradient L)"
    by (auto simp add: d_vectors_def)
  have "in_bounds v (mem_gradient L)"
    using assms(1) v by (simp add: wf_layer_def)
  then show ?thesis
    using has_shape_read_view [of v "mem_gradient L"] by (simp add: dv)
qed

lemma iadd_shape:
  assumes "has_shape r c A" and "iadd A G = Inr A'"
  shows "has_shape r c A'"
proof -
  from assms(2) obtain D where D: "broadcast_to (nrows A) (ncols A) G = Inr D" and A': "A' = arr_add A D"
    by (auto simp add: iadd_def split: sum.splits)
  have "has_shape r c D"
    using has_shape_broadcast_to [OF D] assms(1) by (simp add: has_shape_def)
  then show ?thesis
    unfolding A' using assms(1) by (intro has_shape_arr_add)
qed

lemma wf_scratch [simp]: "wf_layer (L\<lparr>scratch := S\<rparr>) = wf_layer L"
  by (simp add: wf_layer_def split: option.splits)

lemma finish_update_static_step:
  assumes "wf_layer L" and "is_static L"
  shows "wf_layer (snd (finish_update ops cl g sgd L)) \<and>
         is_static (snd (finish_update ops cl g sgd L)) \<and>
         d_vectors (snd (finish_update ops cl g sgd L)) = d_vectors L \<and>
         d_W (snd (finish_update ops cl g sgd L)) = map_option (accumulate_d_W ops cl g) (d_W L)"
proof -
  let ?L0 = "snd (finish_update ops cl g None L)"
  have none: "wf_layer ?L0 \<and> is_static ?L0 \<and> d_vectors ?L0 = d_vectors L \<and>
        d_W ?L0 = map_option (accumulate_d_W ops cl g) (d_W L)"
  proof (cases "d_W L")
    case None
    then show ?thesis
      using assms by (simp add: finish_update_static_None)
  next
    case (Some dw)
    note dw = Some
    show ?thesis
    proof (cases "batch_outer ops g (c_vectors cl)")
      case (Inl e)
      then show ?thesis
        using assms dw by (simp add: finish_update_static_None accumulate_d_W_def)
    next
      case (Inr X)
      note X = Inr
      show ?thesis
      proof (cases "iadd dw X")
        case (Inl e)
        then show ?thesis
          using assms dw X by (simp add: finish_update_static_None accumulate_d_W_def)
      next
        case (Inr dw')
        have "has_shape (nrows dw) (ncols dw) dw'"
          using has_shape_d_W [OF assms(1) dw] Inr by (rule iadd_shape)
        from set_d_W_wf [OF assms(1) dw this] show ?thesis
          using assms dw X Inr by (simp add: finish_update_static_None accumulate_d_W_def)
      qed
    qed
  qed
  obtain S where "snd (finish_update ops cl g sgd L) = ?L0\<lparr>scratch := S\<rparr>"
    using finish_update_static_Some [OF assms(2)] by blast
  with none show ?thesis by simp
qed


text \<open>
  C6. On a static layer whose store keeps its layout, after any sequence of calls of
  \<^verbatim>\<open>finish_update\<close>, with any gradients and any optimizers, whether the calls return or
  raise, \<^verbatim>\<open>d_vectors\<close> is what it was before the first call, and \<^verbatim>\<open>d_W\<close> has received
  the batched outer product of every call whose product and addition did not raise.
\<close>

theorem static_freeze:
  fixes L :: "'a::plus layer"
  assumes "wf_layer L" and "is_static L"
  shows "d_vectors (finish_updates ops calls L) = d_vectors L \<and>
         d_W (finish_updates ops calls L) =
           foldl (\<lambda>D (cl, g, sgd). map_option (accumulate_d_W ops cl g) D) (d_W L) calls"
  using assms
proof (induction calls arbitrary: L)
  case Nil
  then show ?case by simp
next
  case (Cons call calls)
  obtain cl g sgd where call: "call = (cl, g, sgd)"
    by (cases call)
  from finish_update_static_step [OF Cons.prems, of ops cl g sgd]
  show ?case
    using Cons.IH [of "snd (finish_update ops cl g sgd L)"] by (simp add: call)
qed

theorem static_freeze_witness:
  "wf_layer ex_static \<and> is_static ex_static \<and>
   d_vectors ex_static = Some \<lparr>ncols = 1, rws = [[0], [0]]\<rparr> \<and>
   d_W ex_static = Some \<lparr>ncols = 1, rws = [[0], [0]]\<rparr> \<and>
   d_vectors (finish_updates NumpyOps
       [(ex_closure, ex_gradients, None), (ex_closure, ex_gradients, Some ex_sgd)] ex_static) =
     Some \<lparr>ncols = 1, rws = [[0], [0]]\<rparr> \<and>
   d_W (finish_updates NumpyOps
       [(ex_closure, ex_gradients, None), (ex_closure, ex_gradients, Some ex_sgd)] ex_static) =
     Some \<lparr>ncols = 1, rws = [[12], [0]]\<rparr>"
  using static_freeze [of ex_static NumpyOps
      "[(ex_closure, ex_gradients, None), (ex_closure, ex_gradients, Some ex_sgd)]"]
  by (simp add: ex_layer_def ex_closure_def ex_gradients_def NumpyOps_def tensordot_11_def
      tensordot_00_def dot_def ex_static_def ex_sgd_def
      nrows_def is_array_def flatten_def arr_T_def arr_add_def np_mod_def mod_ids_def in_int64_def
      index_rows_def index_iadd_rows_def norm_index_def take_rows_def broadcast_to_def iadd_def scatter_def put_rows_def iadd_rows_def
      v_size_def read_view_def write_view_def W_def vectors_def d_W_def d_vectors_def
      set_d_W_def set_d_vectors_def
      in_bounds_def disjoint_views_def wf_layer_def accumulate_d_W_def finish_update_def
      run_sgd_def alloc_def call_sgd_def deref_def assign_def numeral_2_eq_2 upt_rec)

lemma finish_update_None_Inr_iff:
  "finish_update ops cl g None L = (Inr (), L') \<longleftrightarrow>
     (\<exists>dw X dw'. d_W L = Some dw \<and> batch_outer ops g (c_vectors cl) = Inr X \<and> iadd dw X = Inr dw' \<and>
        (if is_static L then L' = set_d_W dw' L
         else update_d_vectors ops cl g (set_d_W dw' L) = (Inr (), L')))"
  by (auto simp add: finish_update_def split: option.splits sum.splits prod.splits)

lemma update_d_vectors_Inr_iff:
  "update_d_vectors ops cl g L = (Inr (), L') \<longleftrightarrow>
     (\<exists>w g' dv ks dv'. W L = Some w \<and> batch_dot ops g (arr_T w) = Inr g' \<and> d_vectors L = Some dv \<and>
        mod_ids (c_ids cl) (nV L) = Inr (IntIndices ks) \<and> iadd_rows dv ks g' = Inr dv' \<and>
        L' = set_d_vectors dv' L)"
  by (auto simp add: update_d_vectors_def index_iadd_rows_def
      split: option.splits sum.splits indices.splits)


text \<open>
  With cells that are added and subtracted exactly (a commutative group), two calls with
  the same batch and the same upstream gradient double the change of one call, whatever
  the buffers hold before.
\<close>

lemma finish_update_twice_exact:
  fixes L0 :: "'a::ab_group_add layer"
  assumes "wf_layer L0" and "finish_update ops cl g None L0 = (Inr (), L1)"
  shows "\<exists>L2. finish_update ops cl g None L1 = (Inr (), L2) \<and>
              doubled (d_W L0) (d_W L1) (d_W L2) \<and>
              doubled (d_vectors L0) (d_vectors L1) (d_vectors L2)"
proof -
  from assms(2) obtain dw0 X dw1 where dw0: "d_W L0 = Some dw0"
    and X: "batch_outer ops g (c_vectors cl) = Inr X" and dw1: "iadd dw0 X = Inr dw1"
    and rest: "if is_static L0 then L1 = set_d_W dw1 L0
               else update_d_vectors ops cl g (set_d_W dw1 L0) = (Inr (), L1)"
    unfolding finish_update_None_Inr_iff by blast
  define r c where "r = nrows dw0" and "c = ncols dw0"
  have s0: "has_shape r c dw0"
    unfolding r_def c_def using assms(1) dw0 by (rule has_shape_d_W)
  from iadd_as_arr_add [OF dw1] obtain D where sD: "has_shape r c D"
    and D: "\<And>B. nrows B = r \<Longrightarrow> ncols B = c \<Longrightarrow> iadd B X = Inr (arr_add B D)"
    unfolding r_def c_def by blast
  have dw1_eq: "dw1 = arr_add dw0 D"
    using D [of dw0] dw1 by (simp add: r_def c_def)
  have s1: "has_shape r c dw1"
    unfolding dw1_eq using s0 sD by (rule has_shape_arr_add)
  define dw2 where "dw2 = arr_add dw1 D"
  have s2: "has_shape r c dw2"
    unfolding dw2_def using s1 sD by (rule has_shape_arr_add)
  have dw2: "iadd dw1 X = Inr dw2"
    unfolding dw2_def using s1 by (intro D) (simp_all add: has_shape_def)
  have dbl_W: "doubled (Some dw0) (Some dw1) (Some dw2)"
    unfolding dw2_def dw1_eq using s0 sD by (rule doubled_arr_add)
  define La where "La = set_d_W dw1 L0"
  have s1': "has_shape (nrows dw0) (ncols dw0) dw1"
    using s1 by (simp add: r_def c_def)
  have La: "wf_layer La" "d_W La = Some dw1" "d_vectors La = d_vectors L0"
    unfolding La_def using set_d_W_wf [OF assms(1) dw0 s1'] by simp_all
  have s2': "has_shape (nrows dw1) (ncols dw1) dw2"
    using s1 s2 by (simp add: has_shape_def)
  show ?thesis
  proof (cases "is_static L0")
    case True
    with rest have L1: "L1 = La"
      by (simp add: La_def)
    define L2 where "L2 = set_d_W dw2 L1"
    have L2: "d_W L2 = Some dw2" "d_vectors L2 = d_vectors L1"
      unfolding L2_def L1 using set_d_W_wf [OF La(1,2) s2'] by simp_all
    have "finish_update ops cl g None L1 = (Inr (), L2)"
      unfolding finish_update_None_Inr_iff
      using True La(2) X dw2 by (auto simp add: L1 L2_def La_def)
    moreover have "doubled (d_W L0) (d_W L1) (d_W L2)"
      using dbl_W by (simp add: dw0 L1 La L2)
    moreover have "doubled (d_vectors L0) (d_vectors L1) (d_vectors L2)"
      by (simp add: L1 La L2 doubled_same)
    ultimately show ?thesis by blast
  next
    case False
    with rest have "update_d_vectors ops cl g La = (Inr (), L1)"
      by (simp add: La_def)
    then obtain w g' dv0 ks dv1 where w: "W La = Some w"
      and g': "batch_dot ops g (arr_T w) = Inr g'" and dv0: "d_vectors La = Some dv0"
      and ks: "mod_ids (c_ids cl) (nV La) = Inr (IntIndices ks)"
      and dv1: "iadd_rows dv0 ks g' = Inr dv1"
      and L1: "L1 = set_d_vectors dv1 La"
      unfolding update_d_vectors_Inr_iff by blast
    define r' c' where "r' = nrows dv0" and "c' = ncols dv0"
    have t0: "has_shape r' c' dv0"
      unfolding r'_def c'_def using La(1) dv0 by (rule has_shape_d_vectors)
    from iadd_rows_as_arr_add [OF t0 dv1] obtain E where sE: "has_shape r' c' E"
      and E: "\<And>B. has_shape r' c' B \<Longrightarrow> iadd_rows B ks g' = Inr (arr_add B E)"
      by blast
    have dv1_eq: "dv1 = arr_add dv0 E"
      using E [OF t0] dv1 by simp
    have t1: "has_shape r' c' dv1"
      unfolding dv1_eq using t0 sE by (rule has_shape_arr_add)
    define dv2 where "dv2 = arr_add dv1 E"
    have t2: "has_shape r' c' dv2"
      unfolding dv2_def using t1 sE by (rule has_shape_arr_add)
    have dv2: "iadd_rows dv1 ks g' = Inr dv2"
      unfolding dv2_def using t1 by (rule E)
    have dbl_v: "doubled (Some dv0) (Some dv1) (Some dv2)"
      unfolding dv2_def dv1_eq using t0 sE by (rule doubled_arr_add)
    have t1': "has_shape (nrows dv0) (ncols dv0) dv1"
      using t1 by (simp add: r'_def c'_def)
    have L1': "wf_layer L1" "d_vectors L1 = Some dv1" "d_W L1 = Some dw1"
      unfolding L1 using set_d_vectors_wf [OF La(1) dv0 t1'] La(2) by simp_all
    define Lb where "Lb = set_d_W dw2 L1"
    have Lb: "wf_layer Lb" "d_W Lb = Some dw2" "d_vectors Lb = Some dv1"
      unfolding Lb_def using set_d_W_wf [OF L1'(1,3) s2'] L1'(2) by simp_all
    have t2': "has_shape (nrows dv1) (ncols dv1) dv2"
      using t1 t2 by (simp add: has_shape_def)
    define L2 where "L2 = set_d_vectors dv2 Lb"
    have L2: "d_vectors L2 = Some dv2" "d_W L2 = Some dw2"
      unfolding L2_def using set_d_vectors_wf [OF Lb(1,3) t2'] Lb(2) by simp_all
    have "W Lb = Some w" and "nV Lb = nV La" and "\<not> is_static L1"
      using w False by (simp_all add: Lb_def L1 La_def)
    then have "update_d_vectors ops cl g Lb = (Inr (), L2)"
      unfolding update_d_vectors_Inr_iff using g' Lb(3) ks dv2 by (auto simp add: L2_def)
    then have "finish_update ops cl g None L1 = (Inr (), L2)"
      unfolding finish_update_None_Inr_iff
      using \<open>\<not> is_static L1\<close> L1'(3) X dw2 by (auto simp add: Lb_def)
    moreover have "doubled (d_W L0) (d_W L1) (d_W L2)"
      using dbl_W by (simp add: dw0 L1' L2)
    moreover have "doubled (d_vectors L0) (d_vectors L1) (d_vectors L2)"
      using dbl_v La(3) dv0 by (simp add: L1' L2)
    ultimately show ?thesis by blast
  qed
qed


section \<open>Two calls in a row\<close>














end
